theory Spec2Isabelle
  imports Complex_Main "HOL-Library.Log_Nat"
begin

section \<open>JavaScript numbers\<close>

text \<open>
  The engine (\<^verbatim>\<open>src/lib/climateEngine.ts\<close>) computes on JavaScript numbers, which are
  IEEE 754 double-precision numbers. A finite number is modelled by the rational it denotes,
  and every arithmetic operation rounds its exact result to the nearest double, a tie going
  to the even significand. \<open>NaN\<close> is kept as a value of its own, because the engine can
  produce it from well-typed arguments and every comparison with it is false. The
  infinities (a result beyond the largest double) and the sign of zero are outside this
  model.
\<close>

text \<open>The nearest integer, a tie going to the even one.\<close>

definition rhe :: "rat \<Rightarrow> int" where
  "rhe y = (let f = \<lfloor>y\<rfloor>; d = y - of_int f
            in if d < 1 / 2 then f else if 1 / 2 < d then f + 1
               else if even f then f else f + 1)"

text \<open>The exponent \<open>e\<close> with \<open>2^e \<le> |x| < 2^(e+1)\<close>, for \<open>x\<close> other than 0.\<close>

definition binade :: "rat \<Rightarrow> int" where
  "binade x = (let (p, q) = quotient_of \<bar>x\<bar>; e = bitlen p - bitlen q
               in if 2 powi e \<le> \<bar>x\<bar> then e else e - 1)"

text \<open>
  The double nearest to \<open>x\<close>: 53 significant bits, so the doubles around \<open>x\<close> are the
  multiples of \<open>2^(e - 52)\<close>; below \<open>2^-1022\<close> the spacing stays \<open>2^-1074\<close>.
\<close>

definition to_double :: "rat \<Rightarrow> rat" where
  "to_double x =
     (if x = 0 then 0
      else let q = 2 powi (max (binade x) (- 1022) - 52)
           in sgn x * of_int (rhe (\<bar>x\<bar> / q)) * q)"

datatype number = Num rat | NaN

text \<open>A literal of the source denotes the double nearest to the decimal written.\<close>

definition lit :: "rat \<Rightarrow> number" where
  "lit x = Num (to_double x)"

instantiation number :: "{plus, minus, times, ord}"
begin

fun plus_number :: "number \<Rightarrow> number \<Rightarrow> number" where
  "plus_number (Num a) (Num b) = Num (to_double (a + b))"
| "plus_number _ _ = NaN"

fun minus_number :: "number \<Rightarrow> number \<Rightarrow> number" where
  "minus_number (Num a) (Num b) = Num (to_double (a - b))"
| "minus_number _ _ = NaN"

fun times_number :: "number \<Rightarrow> number \<Rightarrow> number" where
  "times_number (Num a) (Num b) = Num (to_double (a * b))"
| "times_number _ _ = NaN"

fun less_number :: "number \<Rightarrow> number \<Rightarrow> bool" where
  "less_number (Num a) (Num b) = (a < b)"
| "less_number _ _ = False"

fun less_eq_number :: "number \<Rightarrow> number \<Rightarrow> bool" where
  "less_eq_number (Num a) (Num b) = (a \<le> b)"
| "less_eq_number _ _ = False"

instance ..

end

text \<open>
  \<^verbatim>\<open>Math.round\<close>: the nearest integer, a tie going up. \<^verbatim>\<open>Math.round\<close>, \<^verbatim>\<open>Math.min\<close> and
  \<^verbatim>\<open>Math.max\<close> return their exact results.
\<close>

fun Math_round :: "number \<Rightarrow> number" where
  "Math_round (Num a) = Num (of_int \<lfloor>a + 1 / 2\<rfloor>)"
| "Math_round NaN = NaN"

fun Math_min :: "number \<Rightarrow> number \<Rightarrow> number" where
  "Math_min (Num a) (Num b) = Num (min a b)"
| "Math_min _ _ = NaN"

fun Math_max :: "number \<Rightarrow> number \<Rightarrow> number" where
  "Math_max (Num a) (Num b) = Num (max a b)"
| "Math_max _ _ = NaN"

section \<open>Risk classification\<close>

datatype RiskClassification = Low | Moderate | High | Severe

definition classifyRisk :: "number \<Rightarrow> RiskClassification" where
  "classifyRisk score =
     (if score < Num 25 then Low
      else if score < Num 50 then Moderate
      else if score < Num 75 then High
      else Severe)"

section \<open>Rendering and reading decimals\<close>

text \<open>
  Strings are byte strings: a character outside ASCII stands as the bytes of its UTF-8
  encoding, as in the source file.
\<close>

definition digit_char :: "nat \<Rightarrow> char" where
  "digit_char d = ''0123456789'' ! (d mod 10)"

function digits :: "nat \<Rightarrow> string" where
  "digits n = (if n < 10 then [digit_char n] else digits (n div 10) @ [digit_char (n mod 10)])"
  by pat_completeness auto
termination
  by (relation "measure id") auto

declare digits.simps [simp del]

text \<open>
  \<^verbatim>\<open>Number.prototype.toFixed(f)\<close> as ECMAScript defines it for a finite number below
  \<open>10^21\<close> in magnitude: the sign is split off, \<open>n\<close> is the integer nearest to
  \<open>x * 10^f\<close> (the larger one on a tie), its digits are padded with zeros to at least
  \<open>f + 1\<close> places and the point is put before the last \<open>f\<close>. \<open>NaN\<close> renders as
  \<^verbatim>\<open>NaN\<close>. (From \<open>10^21\<close> on JavaScript switches to exponent notation, which this
  model does not follow; the only number that can be so large where it is rendered is a
  coordinate in the name of the default region, and no statement below is about such a
  name.)
\<close>

fun toFixed :: "nat \<Rightarrow> number \<Rightarrow> string" where
  "toFixed f NaN = ''NaN''"
| "toFixed f (Num x) =
     (let s = (if x < 0 then ''-'' else []);
          n = nat \<lfloor>\<bar>x\<bar> * 10 ^ f + 1 / 2\<rfloor>;
          m = digits n;
          m = (if f \<noteq> 0 \<and> length m \<le> f then replicate (f + 1 - length m) (CHR ''0'') @ m else m);
          k = length m
      in if f = 0 then s @ m else s @ take (k - f) m @ ''.'' @ drop (k - f) m)"

definition is_digit :: "char \<Rightarrow> bool" where
  "is_digit c = (c \<in> set ''0123456789'')"

definition digit_val :: "char \<Rightarrow> nat" where
  "digit_val c = of_char c - of_char (CHR ''0'')"

definition decimal_val :: "string \<Rightarrow> nat" where
  "decimal_val ds = foldl (\<lambda>acc c. acc * 10 + digit_val c) 0 ds"

text \<open>
  \<^verbatim>\<open>parseFloat\<close> on the strings \<open>toFixed\<close> produces: an optional sign, the longest run
  of digits, and a fraction when a point follows; anything after that is ignored, and a
  string that starts with no number, such as \<^verbatim>\<open>NaN\<close>, reads as \<open>NaN\<close>. The result is the
  double nearest to the decimal read. (Leading white space, exponents and \<^verbatim>\<open>Infinity\<close>
  are not modelled.)
\<close>

definition parse_decimal :: "string \<Rightarrow> rat option" where
  "parse_decimal r =
     (let ip = takeWhile is_digit r;
          r' = dropWhile is_digit r;
          fp = (case r' of c # cs \<Rightarrow> if c = CHR ''.'' then takeWhile is_digit cs else [] | [] \<Rightarrow> [])
      in if ip = [] \<and> fp = [] then None
         else Some (of_nat (decimal_val ip) + of_nat (decimal_val fp) / 10 ^ length fp))"

definition parseFloat :: "string \<Rightarrow> number" where
  "parseFloat str =
     (let neg = (case str of c # _ \<Rightarrow> c = CHR ''-'' | [] \<Rightarrow> False);
          r = (case str of c # cs \<Rightarrow> if c = CHR ''-'' \<or> c = CHR ''+'' then cs else str | [] \<Rightarrow> [])
      in case parse_decimal r of
           None \<Rightarrow> NaN
         | Some v \<Rightarrow> Num (to_double (if neg then - v else v)))"

section \<open>Region resolver\<close>

record RegionProfile =
  name :: string
  region :: string
  flood_base :: rat
  sea_level_base :: rat
  heat_base :: rat
  water_scarcity_base :: rat

definition degree_sign :: string where
  "degree_sign = [CHR 0xC2, CHR 0xB0]"

text \<open>
  The coordinates are the finite numbers the form supplies; \<open>NaN\<close> coordinates are not
  part of the engine's declared input.
\<close>

definition getRegionProfile :: "rat \<Rightarrow> rat \<Rightarrow> RegionProfile" where
  "getRegionProfile lat lng =
     (if lng \<ge> 79 \<and> lng \<le> 80.5 \<and> lat \<ge> 8 \<and> lat \<le> 13 then
        \<lparr>name = ''Chennai Metropolitan Region'', region = ''Tamil Nadu Coast'',
         flood_base = 72, sea_level_base = 68, heat_base = 75, water_scarcity_base = 62\<rparr>
      else if lng \<ge> 72 \<and> lng \<le> 73.5 \<and> lat \<ge> 18 \<and> lat \<le> 19.5 then
        \<lparr>name = ''Mumbai Metropolitan Area'', region = ''Maharashtra Coast'',
         flood_base = 78, sea_level_base = 74, heat_base = 65, water_scarcity_base = 45\<rparr>
      else if lng \<ge> 88 \<and> lng \<le> 89 \<and> lat \<ge> 22 \<and> lat \<le> 23 then
        \<lparr>name = ''Kolkata Urban Agglomeration'', region = ''West Bengal Delta'',
         flood_base = 85, sea_level_base = 80, heat_base = 70, water_scarcity_base = 30\<rparr>
      else if lng \<ge> 76 \<and> lng \<le> 77.5 \<and> lat \<ge> 8 \<and> lat \<le> 9 then
        \<lparr>name = ''Thiruvananthapuram District'', region = ''Kerala Coast'',
         flood_base = 75, sea_level_base = 65, heat_base = 55, water_scarcity_base = 20\<rparr>
      else if lng \<ge> 76 \<and> lng \<le> 88 \<and> lat \<ge> 24 \<and> lat \<le> 30 then
        \<lparr>name = ''Indo-Gangetic Plain'', region = ''Northern India'',
         flood_base = 60, sea_level_base = 10, heat_base = 85, water_scarcity_base = 70\<rparr>
      else if lng \<ge> 69 \<and> lng \<le> 77 \<and> lat \<ge> 24 \<and> lat \<le> 30 then
        \<lparr>name = ''Rajasthan Arid Zone'', region = ''Northwestern India'',
         flood_base = 20, sea_level_base = 5, heat_base = 95, water_scarcity_base = 90\<rparr>
      else if lng \<ge> 74 \<and> lng \<le> 80 \<and> lat \<ge> 14 \<and> lat \<le> 22 then
        \<lparr>name = ''Deccan Plateau Region'', region = ''Central India'',
         flood_base = 40, sea_level_base = 8, heat_base = 78, water_scarcity_base = 65\<rparr>
      else if lng \<ge> 89 \<and> lat \<ge> 23 \<and> lat \<le> 30 then
        \<lparr>name = ''Northeast India'', region = ''Brahmaputra Basin'',
         flood_base = 88, sea_level_base = 15, heat_base = 55, water_scarcity_base = 15\<rparr>
      else if lng \<ge> 68 \<and> lng \<le> 75 \<and> lat \<ge> 20 \<and> lat \<le> 24 then
        \<lparr>name = ''Gujarat Coastal Zone'', region = ''Western India'',
         flood_base = 55, sea_level_base = 58, heat_base = 80, water_scarcity_base = 72\<rparr>
      else
        \<lparr>name = ''Location ('' @ toFixed 2 (Num lat) @ degree_sign @ ''N, ''
                  @ toFixed 2 (Num lng) @ degree_sign @ ''E)'',
         region = ''Interior India'',
         flood_base = 38, sea_level_base = 12, heat_base = 68, water_scarcity_base = 55\<rparr>)"

section \<open>Property type modifiers\<close>

record PropertyModifier =
  flood :: rat
  heat :: rat
  sea :: rat
  water :: rat

text \<open>The own properties of the object literal \<^verbatim>\<open>PROPERTY_MODIFIERS\<close>, in source order.\<close>

definition PROPERTY_MODIFIERS :: "(string \<times> PropertyModifier) list" where
  "PROPERTY_MODIFIERS =
     [(''residential'',  \<lparr>flood = 0,   heat = 5,  sea = 0, water = 0\<rparr>),
      (''commercial'',   \<lparr>flood = - 5, heat = 8,  sea = 5, water = 5\<rparr>),
      (''industrial'',   \<lparr>flood = 10,  heat = 10, sea = 8, water = 15\<rparr>),
      (''agricultural'', \<lparr>flood = 15,  heat = 15, sea = 5, water = 20\<rparr>),
      (''mixed_use'',    \<lparr>flood = 5,   heat = 8,  sea = 5, water = 8\<rparr>)]"

text \<open>
  \<^verbatim>\<open>PROPERTY_MODIFIERS\<close> is an ordinary object, so the property read
  \<^verbatim>\<open>PROPERTY_MODIFIERS[propertyType]\<close> also finds what the object inherits from
  \<^verbatim>\<open>Object.prototype\<close>: its methods, and the prototype itself under \<^verbatim>\<open>__proto__\<close>.
  Each of these is a function or an object.
\<close>

definition Object_prototype_keys :: "string list" where
  "Object_prototype_keys =
     [''constructor'', ''hasOwnProperty'', ''isPrototypeOf'', ''propertyIsEnumerable'',
      ''toLocaleString'', ''toString'', ''valueOf'', ''__proto__'',
      ''__defineGetter__'', ''__defineSetter__'', ''__lookupGetter__'', ''__lookupSetter__'']"

datatype property_value =
    Own PropertyModifier   \<comment> \<open>one of the five modifier records\<close>
  | Inherited              \<comment> \<open>a function or object found on the prototype\<close>
  | Undefined

definition get_property :: "string \<Rightarrow> property_value" where
  "get_property key =
     (case map_of PROPERTY_MODIFIERS key of
        Some m \<Rightarrow> Own m
      | None \<Rightarrow> if key \<in> set Object_prototype_keys then Inherited else Undefined)"

text \<open>
  \<^verbatim>\<open>PROPERTY_MODIFIERS[propertyType] || PROPERTY_MODIFIERS.residential\<close>: only
  \<^verbatim>\<open>undefined\<close> is falsy among the values the read can give.
\<close>

definition lookup_modifier :: "string \<Rightarrow> property_value" where
  "lookup_modifier propertyType =
     (case get_property propertyType of
        Undefined \<Rightarrow> get_property ''residential''
      | v \<Rightarrow> v)"

text \<open>
  Reading \<^verbatim>\<open>mod.flood\<close> and adding it to a number. On a modifier record this is the
  offset; an inherited function or object has no such property, the read gives
  \<^verbatim>\<open>undefined\<close>, and a sum with \<^verbatim>\<open>undefined\<close> is \<open>NaN\<close>.
\<close>

fun offset :: "(PropertyModifier \<Rightarrow> rat) \<Rightarrow> property_value \<Rightarrow> number" where
  "offset field (Own m) = Num (field m)"
| "offset field Inherited = NaN"
| "offset field Undefined = NaN"

section \<open>Factor scorer\<close>

record ClimateFactorScore =
  factor :: string
  score :: number
  weight :: rat
  weighted_score :: number
  description :: string
  data_source :: string

text \<open>\<^verbatim>\<open>(Math.random() - 0.5) * 12\<close> for a draw \<open>u\<close> of \<^verbatim>\<open>Math.random()\<close>.\<close>

definition noise :: "rat \<Rightarrow> number" where
  "noise u = (Num u - lit 0.5) * Num 12"

definition clamp :: "number \<Rightarrow> number" where
  "clamp v = Math_max (Num 0) (Math_min (Num 100) (Math_round v))"

text \<open>
  The four draws of \<^verbatim>\<open>Math.random()\<close> are arguments, in the order the source makes
  them: flood, sea, heat, water.
\<close>

definition calculateFactorScores ::
  "rat \<Rightarrow> rat \<Rightarrow> string \<Rightarrow> rat \<Rightarrow> rat \<Rightarrow> rat \<Rightarrow> rat \<Rightarrow> ClimateFactorScore list" where
  "calculateFactorScores lat lng propertyType u1 u2 u3 u4 =
     (let profile = getRegionProfile lat lng;
          modifier = lookup_modifier propertyType;
          floodScore = clamp (Num (flood_base profile) + offset flood modifier + noise u1);
          seaScore   = clamp (Num (sea_level_base profile) + offset sea modifier + noise u2);
          heatScore  = clamp (Num (heat_base profile) + offset heat modifier + noise u3);
          waterScore = clamp (Num (water_scarcity_base profile) + offset water modifier + noise u4)
      in
       [\<lparr>factor = ''Flood Probability'',
         score = floodScore,
         weight = 0.35,
         weighted_score = parseFloat (toFixed 1 (floodScore * lit 0.35)),
         description =
           (if floodScore > Num 60 then ''High'' else if floodScore > Num 35 then ''Moderate'' else ''Low'')
           @ '' annual flood inundation probability. Based on IMD rainfall anomaly data and NATMO flood hazard maps.'',
         data_source = ''IMD Gridded Rainfall + NATMO Flood Hazard Atlas''\<rparr>,
        \<lparr>factor = ''Sea-Level Rise Exposure'',
         score = seaScore,
         weight = 0.25,
         weighted_score = parseFloat (toFixed 1 (seaScore * lit 0.25)),
         description =
           ''IPCC AR6 SSP2-4.5 scenario projects '' @ toFixed 2 (seaScore * lit 0.05)
           @ ''m sea-level rise by 2050. Coastal proximity amplifies long-term asset devaluation risk.'',
         data_source = ''IPCC AR6 Sea-Level Projections + INCOIS Coastal Vulnerability Index''\<rparr>,
        \<lparr>factor = ''Heat Stress Index'',
         score = heatScore,
         weight = 0.25,
         weighted_score = parseFloat (toFixed 1 (heatScore * lit 0.25)),
         description =
           ''Wet-Bulb Globe Temperature (WBGT) analysis indicates ''
           @ (if heatScore > Num 70 then ''dangerous'' else if heatScore > Num 45 then ''elevated'' else ''manageable'')
           @ '' heat exposure. Affects habitability and property operational costs.'',
         data_source = ''NIUA Heat Action Plans + IMD Temperature Projections''\<rparr>,
        \<lparr>factor = ''Water Scarcity Projection'',
         score = waterScore,
         weight = 0.15,
         weighted_score = parseFloat (toFixed 1 (waterScore * lit 0.15)),
         description =
           ''CWMI composite score indicates ''
           @ (if waterScore > Num 60 then ''critical'' else if waterScore > Num 40 then ''stressed'' else ''adequate'')
           @ '' water availability through 2040. Groundwater depletion rate factored in.'',
         data_source = ''NITI Aayog CWMI + CGWB Groundwater Atlas''\<rparr>])"

section \<open>Projection generator\<close>

record ProjectionDataPoint =
  year :: int
  flood_risk :: number
  heat_stress :: number
  sea_level_rise :: number
  water_scarcity :: number
  composite_risk :: number

text \<open>
  \<^verbatim>\<open>factors.find(f => f.factor === nm)?.score ?? d\<close>: the score of the first factor of
  that name, and \<open>d\<close> when there is none.
\<close>

definition find_score :: "ClimateFactorScore list \<Rightarrow> string \<Rightarrow> number \<Rightarrow> number" where
  "find_score factors nm d =
     (case find (\<lambda>f. factor f = nm) factors of Some f \<Rightarrow> score f | None \<Rightarrow> d)"

text \<open>
  \<open>baseYear\<close> is what \<^verbatim>\<open>new Date().getFullYear()\<close> returns at the call; \<open>t\<close> is the quotient
  \<^verbatim>\<open>i / 10\<close>, rounded as every operation is.
\<close>

definition generateProjections :: "int \<Rightarrow> ClimateFactorScore list \<Rightarrow> ProjectionDataPoint list" where
  "generateProjections baseYear factors =
     (let floodBase = find_score factors ''Flood Probability'' (Num 50);
          heatBase  = find_score factors ''Heat Stress Index'' (Num 50);
          seaBase   = find_score factors ''Sea-Level Rise Exposure'' (Num 50);
          waterBase = find_score factors ''Water Scarcity Projection'' (Num 50)
      in map (\<lambda>i.
           let year = baseYear + int i * 2;
               t = Num (to_double (of_nat i / 10));
               flood_risk     = Math_min (Num 100) (floodBase + t * Num 18 + t * t * Num 7);
               heat_stress    = Math_min (Num 100) (heatBase  + t * Num 15 + t * t * Num 9);
               sea_level_rise = Math_min (Num 100) (seaBase   + t * Num 22 + t * t * Num 5);
               water_scarcity = Math_min (Num 100) (waterBase + t * Num 12 + t * t * Num 6);
               composite_risk = parseFloat (toFixed 1
                 (flood_risk * lit 0.35 + sea_level_rise * lit 0.25
                  + heat_stress * lit 0.25 + water_scarcity * lit 0.15))
           in \<lparr>year = year,
               flood_risk     = parseFloat (toFixed 1 flood_risk),
               heat_stress    = parseFloat (toFixed 1 heat_stress),
               sea_level_rise = parseFloat (toFixed 1 sea_level_rise),
               water_scarcity = parseFloat (toFixed 1 water_scarcity),
               composite_risk = composite_risk\<rparr>)
         [0 ..< 11])"

section \<open>Lending adjustment generator\<close>

datatype adjustment_type = interest_rate | insurance | risk_warning | loan_cap | enhanced_due_diligence

datatype severity_level = info | warning | critical

record LendingAdjustment =
  adj_type :: adjustment_type
  title :: string
  adj_description :: string
  adj_value :: "string option"
  severity :: severity_level

text \<open>\<^verbatim>\<open>${capPct}\<close>: an integer in a template string is written in decimal.\<close>

definition to_string :: "int \<Rightarrow> string" where
  "to_string n = (if n < 0 then ''-'' else []) @ digits (nat \<bar>n\<bar>)"

definition rupee_sign :: string where
  "rupee_sign = [CHR 0xE2, CHR 0x82, CHR 0xB9]"

text \<open>
  The source pushes onto one array, rule after rule; here each rule gives the list of
  what it pushes and the lists are appended in the same order. The argument \<^verbatim>\<open>score\<close> is
  written \<open>score'\<close>, \<open>score\<close> being the field of a factor.
\<close>

definition generateLendingAdjustments ::
  "number \<Rightarrow> RiskClassification \<Rightarrow> string \<Rightarrow> ClimateFactorScore list \<Rightarrow> LendingAdjustment list" where
  "generateLendingAdjustments score' classification propertyType factors =
     (let floodScore = find_score factors ''Flood Probability'' (Num 0);
          seaScore   = find_score factors ''Sea-Level Rise Exposure'' (Num 0);
          rateAdj = (if score' < Num 25 then 0 else if score' < Num 50 then 0.5
                     else if score' < Num 75 then 1.5 else (2.5 :: rat))
      in
       (if rateAdj > 0 then
          [\<lparr>adj_type = interest_rate,
            title = ''Climate Risk Premium'',
            adj_description = ''Apply a climate-adjusted interest rate premium to compensate for elevated default risk from physical climate hazards. Based on RBI Climate Risk Framework (2024).'',
            adj_value = Some (''+'' @ toFixed 1 (Num rateAdj) @ ''% p.a.''),
            severity = (if classification = Severe then critical
                        else if classification = High then warning else info)\<rparr>]
        else [])
       @
       (if floodScore > Num 40 then
          [\<lparr>adj_type = insurance,
            title = (if floodScore > Num 65 then ''Mandatory Flood Insurance'' else ''Recommended Flood Cover''),
            adj_description =
              ''Property is in ''
              @ (if floodScore > Num 65 then ''a high-probability flood zone'' else ''a moderate flood-risk area'')
              @ ''. ''
              @ (if floodScore > Num 65 then ''Flood insurance is a mandatory loan condition.''
                 else ''Flood insurance is strongly recommended.''),
            adj_value = Some (if floodScore > Num 65 then ''Mandatory'' else ''Recommended''),
            severity = (if floodScore > Num 65 then critical else warning)\<rparr>]
        else [])
       @
       (if seaScore > Num 50 then
          [\<lparr>adj_type = insurance,
            title = ''Coastal Hazard Insurance'',
            adj_description = ''Significant sea-level rise exposure detected. Comprehensive coastal hazard coverage required including storm surge and tidal flooding events.'',
            adj_value = Some ''Required'',
            severity = (if seaScore > Num 70 then critical else warning)\<rparr>]
        else [])
       @
       (if classification = High \<or> classification = Severe then
          (let capPct = (if classification = Severe then 60 else 70)
           in [\<lparr>adj_type = loan_cap,
                title = ''Loan-to-Value Cap'',
                adj_description =
                  ''Restrict maximum LTV ratio to '' @ to_string capPct
                  @ ''% due to elevated climate risk. Future asset devaluation from climate hazards may erode collateral value.'',
                adj_value = Some (''Max '' @ to_string capPct @ ''% LTV''),
                severity = (if classification = Severe then critical else warning)\<rparr>])
        else [])
       @
       (if classification = Severe then
          [\<lparr>adj_type = enhanced_due_diligence,
            title = ''Enhanced Climate Due Diligence'',
            adj_description =
              ''Mandatory independent climate risk assessment by an accredited third-party environmental consultant before loan sanction. Board-level approval required for all loans above ''
              @ rupee_sign @ ''5 Cr.'',
            adj_value = Some ''Required'',
            severity = critical\<rparr>]
        else [])
       @
       (if classification = Low then
          [\<lparr>adj_type = risk_warning,
            title = ''Standard Lending Terms Applicable'',
            adj_description = ''Climate risk assessment indicates low exposure. Standard lending terms apply. Annual climate risk review recommended as part of portfolio monitoring.'',
            adj_value = Some ''No adjustment'',
            severity = info\<rparr>]
        else [])
       @
       (if propertyType = ''agricultural'' \<and> score' > Num 40 then
          [\<lparr>adj_type = risk_warning,
            title = ''Kharif/Rabi Season Risk'',
            adj_description = ''Agricultural property in a climate-stressed zone. Consider weather-indexed crop insurance linkage and staggered disbursement tied to seasonal rainfall assessment.'',
            adj_value = Some ''Conditional'',
            severity = warning\<rparr>]
        else []))"

section \<open>Assembling the report\<close>

datatype PropertyType = residential | commercial | industrial | agricultural | mixed_use

text \<open>A \<^verbatim>\<open>PropertyType\<close> is, at run time, the string of its tag.\<close>

fun tag :: "PropertyType \<Rightarrow> string" where
  "tag residential = ''residential''"
| "tag commercial = ''commercial''"
| "tag industrial = ''industrial''"
| "tag agricultural = ''agricultural''"
| "tag mixed_use = ''mixed_use''"

record PropertyAssessmentInput =
  latitude :: rat
  longitude :: rat
  property_type :: PropertyType
  loan_amount :: "rat option"
  loan_tenure :: "rat option"

record ClimateRiskReport =
  report_latitude :: rat
  report_longitude :: rat
  report_property_type :: PropertyType
  location_name :: string
  report_region :: string
  climate_risk_score :: number
  risk_classification :: RiskClassification
  confidence_level :: number
  factors :: "ClimateFactorScore list"
  projections :: "ProjectionDataPoint list"
  lending_adjustments :: "LendingAdjustment list"
  assessment_date :: string
  model_version :: string
  data_vintage :: string

definition middle_dot :: string where
  "middle_dot = [CHR 0xC2, CHR 0xB7]"

text \<open>
  \<^verbatim>\<open>runClimateAssessment\<close> of the dashboard page. What it takes from its environment is
  passed in: the six draws of \<^verbatim>\<open>Math.random()\<close> in call order (\<open>u0\<close> for the simulated
  latency, \<open>u1\<close> to \<open>u4\<close> for the scorer's noise, \<open>u5\<close> for the confidence level), the
  time stamp \<open>now\<close> that \<^verbatim>\<open>new Date().toISOString()\<close> gives and the current year. The
  wait itself has no effect on the result.
\<close>

definition runClimateAssessment ::
  "PropertyAssessmentInput \<Rightarrow> rat \<Rightarrow> rat \<Rightarrow> rat \<Rightarrow> rat \<Rightarrow> rat \<Rightarrow> rat \<Rightarrow> string \<Rightarrow> int
     \<Rightarrow> ClimateRiskReport" where
  "runClimateAssessment input u0 u1 u2 u3 u4 u5 now baseYear =
     (let factors = calculateFactorScores (latitude input) (longitude input)
                      (tag (property_type input)) u1 u2 u3 u4;
          rawScore = foldl (\<lambda>sum f. sum + weighted_score f) (Num 0) factors;
          score = Math_min (Num 100) (Math_max (Num 0) (Math_round rawScore));
          classification = classifyRisk score;
          profile = getRegionProfile (latitude input) (longitude input);
          projections = generateProjections baseYear factors;
          adjustments = generateLendingAdjustments score classification
                          (tag (property_type input)) factors
      in \<lparr>report_latitude = latitude input,
          report_longitude = longitude input,
          report_property_type = property_type input,
          location_name = name profile,
          report_region = region profile,
          climate_risk_score = score,
          risk_classification = classification,
          confidence_level = lit 0.78 + Num u5 * lit 0.15,
          factors = factors,
          projections = projections,
          lending_adjustments = adjustments,
          assessment_date = now,
          model_version = ''v2.1.0-beta'',
          data_vintage = ''IMD 2023 '' @ middle_dot @ '' IPCC AR6''\<rparr>)"

section \<open>Reference definitions and fixtures\<close>

text \<open>
  Rounding to \<open>f\<close> decimals as a function on numbers, a tie going away from zero; this is
  what the spec calls "rounded to 1 decimal" for \<open>f = 1\<close>. It is compared below with what
  the source does, \<^verbatim>\<open>parseFloat(x.toFixed(1))\<close>.
\<close>

definition round_dec :: "nat \<Rightarrow> rat \<Rightarrow> rat" where
  "round_dec f x = (if x < 0 then - 1 else 1) * of_int \<lfloor>\<bar>x\<bar> * 10 ^ f + 1 / 2\<rfloor> / 10 ^ f"

definition round1 :: "rat \<Rightarrow> rat" where
  "round1 x = round_dec 1 x"

text \<open>The digits \<open>toFixed\<close> splits at the point: padded to more than \<open>f\<close> places.\<close>

definition padded :: "nat \<Rightarrow> nat \<Rightarrow> string" where
  "padded f n = (let m = digits n in
     if f \<noteq> 0 \<and> length m \<le> f then replicate (f + 1 - length m) (CHR ''0'') @ m else m)"

text \<open>
  The trajectory of the spec, \<open>min(100, base + t*rate1 + t\<^sup>2*rate2)\<close> at \<open>t = i/10\<close>.
\<close>

definition curve :: "rat \<Rightarrow> rat \<Rightarrow> rat \<Rightarrow> nat \<Rightarrow> rat" where
  "curve base rate1 rate2 i =
     (let t = of_nat i / 10 in min 100 (base + t * rate1 + t * t * rate2))"

text \<open>
  A factor list for the lending rules: flood sub-score 70, sea sub-score 60, with the
  weighted scores the scorer would attach.
\<close>

definition lending_fixture :: "ClimateFactorScore list" where
  "lending_fixture =
     [\<lparr>factor = ''Flood Probability'', score = Num 70, weight = 0.35,
       weighted_score = Num 24.5, description = [], data_source = []\<rparr>,
      \<lparr>factor = ''Sea-Level Rise Exposure'', score = Num 60, weight = 0.25,
       weighted_score = Num 15, description = [], data_source = []\<rparr>,
      \<lparr>factor = ''Heat Stress Index'', score = Num 90, weight = 0.25,
       weighted_score = Num 22.5, description = [], data_source = []\<rparr>,
      \<lparr>factor = ''Water Scarcity Projection'', score = Num 80, weight = 0.15,
       weighted_score = Num 12, description = [], data_source = []\<rparr>]"

text \<open>One hazard score as the scorer computes it, from a base, an offset and a draw.\<close>

definition hazard_score :: "rat \<Rightarrow> rat \<Rightarrow> rat \<Rightarrow> number" where
  "hazard_score base modifier u = clamp (Num base + Num modifier + noise u)"

text \<open>
  The trajectory and the composite as the source computes them, every operation rounded to
  a double, before \<^verbatim>\<open>toFixed\<close>.
\<close>

definition double_curve :: "rat \<Rightarrow> rat \<Rightarrow> rat \<Rightarrow> nat \<Rightarrow> rat" where
  "double_curve base rate1 rate2 i =
     (let t = to_double (of_nat i / 10)
      in min 100 (to_double (to_double (base + to_double (t * rate1))
                             + to_double (to_double (t * t) * rate2))))"

definition double_composite :: "rat \<Rightarrow> rat \<Rightarrow> rat \<Rightarrow> rat \<Rightarrow> rat" where
  "double_composite f s h w =
     to_double (to_double (to_double (to_double (f * to_double 0.35) + to_double (s * to_double 0.25))
                           + to_double (h * to_double 0.25))
                + to_double (w * to_double 0.15))"

text \<open>The spacing of the doubles around \<open>x\<close>.\<close>

definition quantum :: "rat \<Rightarrow> rat" where
  "quantum x = 2 powi (max (binade x) (- 1022) - 52)"

text \<open>
  An assessment in the Mumbai box: residential, no noise on flood, sea and heat
  (draws of 0.5), noise 0.75 on water (draw 0.5625).
\<close>

definition mumbai_input :: PropertyAssessmentInput where
  "mumbai_input =
     \<lparr>latitude = 19.05, longitude = 72.83, property_type = residential,
      loan_amount = Some 150, loan_tenure = Some 20\<rparr>"

definition mumbai_report :: ClimateRiskReport where
  "mumbai_report =
     runClimateAssessment mumbai_input 0 0.5 0.5 0.5 0.5625 0 ''2026-11-02T09:30:00.000Z'' 2026"

text \<open>
  The same location as agricultural land, with draws 0.6875, 0, 0.25 and 0.4375 for the
  scorer; and a mixed-use property in the Chennai box, with draws 0, 0.5, 0.5 and 0.5.
\<close>

definition chennai_mixed_use_report :: ClimateRiskReport where
  "chennai_mixed_use_report =
     runClimateAssessment
       \<lparr>latitude = 10, longitude = 80, property_type = mixed_use,
        loan_amount = None, loan_tenure = None\<rparr>
       0 0 0.5 0.5 0.5 0 ''2026-11-02T09:30:00.000Z'' 2026"

definition mumbai_agricultural_report :: ClimateRiskReport where
  "mumbai_agricultural_report =
     runClimateAssessment (mumbai_input \<lparr>property_type := agricultural\<rparr>)
       0 0.6875 0 0.25 0.4375 0 ''2026-11-02T09:30:00.000Z'' 2026"

section \<open>Rounding to the nearest double\<close>

text \<open>
  \<open>to_double\<close> is monotone, exact on every double, and off by at most half the spacing.
\<close>

lemma rhe_floor: "\<lfloor>y\<rfloor> \<le> rhe y \<and> rhe y \<le> \<lfloor>y\<rfloor> + 1"
  by (simp add: rhe_def Let_def)

lemma rhe_err: "\<bar>of_int (rhe y) - y\<bar> \<le> 1 / 2"
proof -
  have "of_int \<lfloor>y\<rfloor> \<le> y" "y < of_int \<lfloor>y\<rfloor> + 1" by linarith+
  then show ?thesis
    by (auto simp: rhe_def Let_def abs_le_iff)
qed

lemma rhe_of_int: "rhe (of_int n) = n"
  by (simp add: rhe_def Let_def)

lemma rhe_mono:
  assumes "y \<le> z"
  shows "rhe y \<le> rhe z"
proof (cases "\<lfloor>y\<rfloor> = \<lfloor>z\<rfloor>")
  case True
  with assms show ?thesis
    by (auto simp: rhe_def Let_def)
next
  case False
  with assms have "\<lfloor>y\<rfloor> < \<lfloor>z\<rfloor>" using floor_mono [of y z] by linarith
  then show ?thesis using rhe_floor [of y] rhe_floor [of z] by linarith
qed

lemma two_powi_pos: "0 < (2::rat) powi e"
  by simp

lemma two_powi_mono: "a \<le> b \<Longrightarrow> (2::rat) powi a \<le> 2 powi b"
  by (rule power_int_increasing) simp_all

lemma two_powi_less: "(2::rat) powi a < 2 powi b \<Longrightarrow> a < b"
proof (rule ccontr)
  assume a: "(2::rat) powi a < 2 powi b" and "\<not> a < b"
  then have "b \<le> a" by simp
  then have "(2::rat) powi b \<le> 2 powi a" by (rule two_powi_mono)
  with a show False by simp
qed

lemma two_powi_add: "(2::rat) powi (a + b) = 2 powi a * 2 powi b"
  by (rule power_int_add) simp

lemma two_powi_diff: "(2::rat) powi (a - b) = 2 powi a / 2 powi b"
  by (rule power_int_diff) simp

lemma binade_bounds:
  assumes "x \<noteq> 0"
  shows "2 powi binade x \<le> \<bar>x\<bar> \<and> \<bar>x\<bar> < 2 powi (binade x + 1)"
proof -
  obtain p q where pq: "quotient_of \<bar>x\<bar> = (p, q)" by (cases "quotient_of \<bar>x\<bar>")
  then have q: "0 < q" by (rule quotient_of_denom_pos)
  from pq have x: "\<bar>x\<bar> = of_int p / of_int q" by (rule quotient_of_div)
  have "0 < \<bar>x\<bar>" using assms by simp
  with x q have p: "0 < p" by (simp add: zero_less_divide_iff)
  define e where "e = bitlen p - bitlen q"
  have bp: "1 \<le> bitlen p" "1 \<le> bitlen q"
    using p q bitlen_eq_zero_iff [of p] bitlen_eq_zero_iff [of q] bitlen_nonneg [of p] bitlen_nonneg [of q]
    by linarith+
  have pw: "(2::rat) powi n = of_int (2 ^ nat n)" if "0 \<le> n" for n
    using that by (simp add: power_int_def)
  from bitlen_bounds [OF p] have "(2::int) ^ nat (bitlen p - 1) \<le> p" "p < 2 ^ nat (bitlen p)"
    by simp_all
  then have "(of_int (2 ^ nat (bitlen p - 1)) :: rat) \<le> of_int p" "(of_int p :: rat) < of_int (2 ^ nat (bitlen p))"
    by (simp_all only: of_int_le_iff of_int_less_iff)
  then have p1: "(2::rat) powi (bitlen p - 1) \<le> of_int p" and p2: "of_int p < (2::rat) powi bitlen p"
    using bp pw [of "bitlen p - 1"] pw [of "bitlen p"] by simp_all
  from bitlen_bounds [OF q] have "(2::int) ^ nat (bitlen q - 1) \<le> q" "q < 2 ^ nat (bitlen q)"
    by simp_all
  then have "(of_int (2 ^ nat (bitlen q - 1)) :: rat) \<le> of_int q" "(of_int q :: rat) < of_int (2 ^ nat (bitlen q))"
    by (simp_all only: of_int_le_iff of_int_less_iff)
  then have q1: "(2::rat) powi (bitlen q - 1) \<le> of_int q" and q2: "of_int q < (2::rat) powi bitlen q"
    using bp pw [of "bitlen q - 1"] pw [of "bitlen q"] by simp_all
  have qpos: "(0::rat) < of_int q" using q by simp
  have lower: "(2::rat) powi (e - 1) \<le> \<bar>x\<bar>"
  proof -
    have "(2::rat) powi (e - 1) * of_int q \<le> 2 powi (e - 1) * 2 powi bitlen q"
      using q2 by (intro mult_left_mono) simp_all
    also have "\<dots> = 2 powi (bitlen p - 1)"
      by (simp add: e_def two_powi_add [symmetric])
    also have "\<dots> \<le> of_int p" by (rule p1)
    finally show ?thesis using qpos by (simp add: x pos_le_divide_eq)
  qed
  have upper: "\<bar>x\<bar> < (2::rat) powi (e + 1)"
  proof -
    have "of_int p < (2::rat) powi bitlen p" by (rule p2)
    also have "\<dots> = 2 powi (e + 1) * 2 powi (bitlen q - 1)"
      by (simp add: e_def two_powi_add [symmetric])
    also have "\<dots> \<le> 2 powi (e + 1) * of_int q"
      using q1 by (intro mult_left_mono) simp_all
    finally show ?thesis using qpos by (simp add: x pos_divide_less_eq)
  qed
  have b: "binade x = (if 2 powi e \<le> \<bar>x\<bar> then e else e - 1)"
    by (simp add: binade_def pq e_def)
  show ?thesis
  proof (cases "2 powi e \<le> \<bar>x\<bar>")
    case True
    with upper show ?thesis by (simp add: b)
  next
    case False
    with lower show ?thesis by (simp add: b)
  qed
qed

lemma binade_unique:
  assumes "2 powi e \<le> \<bar>x\<bar>" and "\<bar>x\<bar> < 2 powi (e + 1)"
  shows "binade x = e"
proof -
  have "0 < \<bar>x\<bar>" using assms(1) two_powi_pos [of e] by linarith
  then have "x \<noteq> 0" by simp
  from binade_bounds [OF this]
  have b: "2 powi binade x \<le> \<bar>x\<bar>" "\<bar>x\<bar> < 2 powi (binade x + 1)" by simp_all
  have "(2::rat) powi e < 2 powi (binade x + 1)" using assms(1) b(2) by simp
  then have "e < binade x + 1" by (rule two_powi_less)
  moreover have "(2::rat) powi binade x < 2 powi (e + 1)" using assms(2) b(1) by simp
  then have "binade x < e + 1" by (rule two_powi_less)
  ultimately show ?thesis by simp
qed

lemma binade_minus: "binade (- x) = binade x"
  by (simp add: binade_def)


lemma to_double_0: "to_double 0 = 0"
  by (simp add: to_double_def)

lemma to_double_minus: "to_double (- x) = - to_double x"
  by (simp add: to_double_def binade_minus Let_def)

lemma quantum_pos: "0 < quantum x"
  by (simp add: quantum_def)

lemma to_double_pos: "0 < x \<Longrightarrow> to_double x = of_int (rhe (x / quantum x)) * quantum x"
  by (simp add: to_double_def quantum_def Let_def)

lemma quantum_scale:
  "2 ^ 53 * (2::rat) powi (e - 52) = 2 powi (e + 1)"
  "2 ^ 52 * (2::rat) powi (e - 52) = 2 powi e"
proof -
  have "(2::rat) powi (e + 1) = 2 powi (53 + (e - 52))"
    by (rule arg_cong [where f = "\<lambda>n. 2 powi n"]) simp
  also have "\<dots> = 2 powi 53 * 2 powi (e - 52)" by (rule two_powi_add)
  finally show "2 ^ 53 * (2::rat) powi (e - 52) = 2 powi (e + 1)" by simp
  have "(2::rat) powi e = 2 powi (52 + (e - 52))"
    by (rule arg_cong [where f = "\<lambda>n. 2 powi n"]) simp
  also have "\<dots> = 2 powi 52 * 2 powi (e - 52)" by (rule two_powi_add)
  finally show "2 ^ 52 * (2::rat) powi (e - 52) = 2 powi e" by simp
qed

lemma scaled_bounds:
  assumes "0 < x"
  shows "x / quantum x < 2 ^ 53"
    and "- 1022 \<le> binade x \<Longrightarrow> 2 ^ 52 \<le> x / quantum x"
proof -
  from assms have x: "x \<noteq> 0" by simp
  from binade_bounds [OF x] assms
  have b: "2 powi binade x \<le> x" "x < 2 powi (binade x + 1)" by simp_all
  define e' where "e' = max (binade x) (- 1022)"
  have q: "quantum x = 2 powi (e' - 52)" by (simp add: quantum_def e'_def)
  have "x < 2 powi (e' + 1)"
    using b(2) two_powi_mono [of "binade x + 1" "e' + 1"] by (simp add: e'_def)
  also have "\<dots> = 2 ^ 53 * quantum x"
    unfolding q by (simp only: quantum_scale)
  finally show "x / quantum x < 2 ^ 53"
    using quantum_pos [of x] by (simp add: pos_divide_less_eq)
  show "2 ^ 52 \<le> x / quantum x" if "- 1022 \<le> binade x"
  proof -
    from that have "e' = binade x" by (simp add: e'_def)
    then have "2 ^ 52 * quantum x = 2 powi binade x"
      unfolding q by (simp only: quantum_scale)
    with b(1) show ?thesis
      using quantum_pos [of x] by (simp add: pos_le_divide_eq)
  qed
qed

lemma to_double_pos_bounds:
  assumes "0 < x"
  shows "to_double x \<le> 2 powi (max (binade x) (- 1022) + 1)"
    and "- 1022 \<le> binade x \<Longrightarrow> 2 powi binade x \<le> to_double x"
    and "0 \<le> to_double x"
proof -
  define e' where "e' = max (binade x) (- 1022)"
  have q: "quantum x = 2 powi (e' - 52)" by (simp add: quantum_def e'_def)
  have "rhe (x / quantum x) \<le> rhe (of_int (2 ^ 53))"
    using scaled_bounds(1) [OF assms] by (intro rhe_mono) simp
  then have "rhe (x / quantum x) \<le> 2 ^ 53" by (simp only: rhe_of_int)
  then have "(of_int (rhe (x / quantum x)) :: rat) \<le> 2 ^ 53"
    by (metis of_int_le_iff of_int_numeral of_int_power)
  then have "to_double x \<le> 2 ^ 53 * quantum x"
    using quantum_pos [of x] by (simp add: to_double_pos [OF assms])
  also have "\<dots> = 2 powi (e' + 1)"
    unfolding q by (simp only: quantum_scale)
  finally show "to_double x \<le> 2 powi (max (binade x) (- 1022) + 1)" by (simp add: e'_def)
  have "0 \<le> x / quantum x" using assms quantum_pos [of x] by simp
  then have "rhe (of_int 0) \<le> rhe (x / quantum x)" by (intro rhe_mono) simp
  then have "0 \<le> rhe (x / quantum x)" by (simp only: rhe_of_int)
  then show "0 \<le> to_double x"
    using quantum_pos [of x] by (simp add: to_double_pos [OF assms])
  show "2 powi binade x \<le> to_double x" if n: "- 1022 \<le> binade x"
  proof -
    have "rhe (of_int (2 ^ 52)) \<le> rhe (x / quantum x)"
      using scaled_bounds(2) [OF assms n] by (intro rhe_mono) simp
    then have "2 ^ 52 \<le> rhe (x / quantum x)" by (simp only: rhe_of_int)
    then have "(2 ^ 52 :: rat) \<le> of_int (rhe (x / quantum x))"
      by (metis of_int_le_iff of_int_numeral of_int_power)
    then have "2 ^ 52 * quantum x \<le> to_double x"
      using quantum_pos [of x] by (simp add: to_double_pos [OF assms])
    moreover from n have "e' = binade x" by (simp add: e'_def)
    then have "2 ^ 52 * quantum x = 2 powi binade x"
      unfolding q by (simp only: quantum_scale)
    ultimately show ?thesis by simp
  qed
qed

lemma binade_mono:
  assumes "0 < x" and "x \<le> y"
  shows "binade x \<le> binade y"
proof -
  from assms have "x \<noteq> 0" "y \<noteq> 0" by simp_all
  from binade_bounds [OF this(1)] binade_bounds [OF this(2)] assms
  have "(2::rat) powi binade x < 2 powi (binade y + 1)" by simp
  then have "binade x < binade y + 1" by (rule two_powi_less)
  then show ?thesis by simp
qed

lemma to_double_mono_pos:
  assumes "0 < x" and "x \<le> y"
  shows "to_double x \<le> to_double y"
proof -
  from assms have y: "0 < y" by simp
  define ex where "ex = max (binade x) (- 1022)"
  define ey where "ey = max (binade y) (- 1022)"
  have le: "ex \<le> ey" using binade_mono [OF assms] by (simp add: ex_def ey_def)
  show ?thesis
  proof (cases "ex = ey")
    case True
    then have q: "quantum x = quantum y" by (simp add: quantum_def ex_def ey_def)
    have "x / quantum y \<le> y / quantum y"
      using assms(2) quantum_pos [of y] by (simp add: divide_right_mono)
    then have "rhe (x / quantum y) \<le> rhe (y / quantum y)" by (rule rhe_mono)
    then show ?thesis
      using quantum_pos [of y] by (simp add: to_double_pos assms(1) y q)
  next
    case False
    with le have lt: "ex + 1 \<le> ey" by simp
    then have n: "- 1022 \<le> binade y" and ey: "ey = binade y" by (simp_all add: ex_def ey_def)
    have "to_double x \<le> 2 powi (ex + 1)"
      using to_double_pos_bounds(1) [OF assms(1)] by (simp add: ex_def)
    also have "\<dots> \<le> 2 powi binade y" using lt ey by (intro two_powi_mono) simp
    also have "\<dots> \<le> to_double y" by (rule to_double_pos_bounds(2) [OF y n])
    finally show ?thesis .
  qed
qed

lemma to_double_nonneg: "0 \<le> x \<Longrightarrow> 0 \<le> to_double x"
  using to_double_pos_bounds(3) [of x] by (cases "x = 0") (simp_all add: to_double_0)

lemma to_double_nonpos: "x \<le> 0 \<Longrightarrow> to_double x \<le> 0"
  using to_double_nonneg [of "- x"] by (simp add: to_double_minus)

lemma to_double_mono:
  assumes "x \<le> y"
  shows "to_double x \<le> to_double y"
proof -
  consider "0 < x" | "x \<le> 0" "0 \<le> y" | "y < 0" by linarith
  then show ?thesis
  proof cases
    case 1
    then show ?thesis using assms by (rule to_double_mono_pos)
  next
    case 2
    then show ?thesis using to_double_nonpos [of x] to_double_nonneg [of y] by simp
  next
    case 3
    then have "0 < - y" "- y \<le> - x" using assms by simp_all
    then have "to_double (- y) \<le> to_double (- x)" by (rule to_double_mono_pos)
    then show ?thesis by (simp add: to_double_minus)
  qed
qed


lemma two_powi_le: "(2::rat) powi a \<le> 2 powi b \<Longrightarrow> a \<le> b"
proof (rule ccontr)
  assume a: "(2::rat) powi a \<le> 2 powi b" and "\<not> a \<le> b"
  then have "b < a" by simp
  then have "(2::rat) powi b < 2 powi a" by (intro power_int_strict_increasing) simp_all
  with a show False by simp
qed

lemma to_double_eval:
  assumes "2 powi e \<le> \<bar>x\<bar>" and "\<bar>x\<bar> < 2 powi (e + 1)" and "- 1022 \<le> e"
  shows "to_double x = sgn x * of_int (rhe (\<bar>x\<bar> / 2 powi (e - 52))) * 2 powi (e - 52)"
proof -
  have b: "binade x = e" using assms(1,2) by (rule binade_unique)
  have "0 < \<bar>x\<bar>" using assms(1) two_powi_pos [of e] by linarith
  then have "x \<noteq> 0" by simp
  then show ?thesis using assms(3) by (simp add: to_double_def b Let_def)
qed

lemma to_double_err_pos:
  assumes "0 < x" and "x \<le> 2 powi k" and "- 1022 \<le> k"
  shows "\<bar>to_double x - x\<bar> \<le> 2 powi (k - 53)"
proof -
  define e' where "e' = max (binade x) (- 1022)"
  have q: "quantum x = 2 powi (e' - 52)" by (simp add: quantum_def e'_def)
  from assms(1) have "x \<noteq> 0" by simp
  from binade_bounds [OF this] assms(1,2) have "(2::rat) powi binade x \<le> 2 powi k" by simp
  then have "binade x \<le> k" by (rule two_powi_le)
  with assms(3) have le: "e' \<le> k" by (simp add: e'_def)
  have "to_double x - x = (of_int (rhe (x / quantum x)) - x / quantum x) * quantum x"
    using quantum_pos [of x] by (simp add: to_double_pos [OF assms(1)] algebra_simps)
  then have "\<bar>to_double x - x\<bar> = \<bar>of_int (rhe (x / quantum x)) - x / quantum x\<bar> * quantum x"
    using quantum_pos [of x] by (simp add: abs_mult)
  also have "\<dots> \<le> 1 / 2 * quantum x"
    using quantum_pos [of x] rhe_err [of "x / quantum x"] by (intro mult_right_mono) simp_all
  also have "\<dots> = 2 powi (e' - 53)"
  proof -
    have "(2::rat) powi (e' - 52) = 2 powi (1 + (e' - 53))"
      by (rule arg_cong [where f = "\<lambda>n. 2 powi n"]) simp
    also have "\<dots> = 2 powi 1 * 2 powi (e' - 53)" by (rule two_powi_add)
    finally show ?thesis by (simp add: q)
  qed
  also have "\<dots> \<le> 2 powi (k - 53)" using le by (intro two_powi_mono) simp
  finally show ?thesis .
qed

lemma to_double_err:
  assumes "\<bar>x\<bar> \<le> 2 powi k" and "- 1022 \<le> k"
  shows "\<bar>to_double x - x\<bar> \<le> 2 powi (k - 53)"
proof -
  consider "x = 0" | "0 < x" | "x < 0" by linarith
  then show ?thesis
  proof cases
    case 1
    then show ?thesis by (simp add: to_double_0)
  next
    case 2
    then show ?thesis using assms by (intro to_double_err_pos) simp_all
  next
    case 3
    then have "\<bar>to_double (- x) - (- x)\<bar> \<le> 2 powi (k - 53)"
      using assms by (intro to_double_err_pos) simp_all
    then show ?thesis by (simp add: to_double_minus abs_minus_commute)
  qed
qed

lemma to_double_exact_pos:
  assumes "0 < m" and "m < 2 ^ 53" and "- 1074 \<le> j"
  shows "to_double (of_int m * 2 powi j) = of_int m * 2 powi j"
proof -
  define x :: rat where "x = of_int m * 2 powi j"
  have x: "0 < x" using assms(1) by (simp add: x_def)
  then have "x \<noteq> 0" by simp
  define e' where "e' = max (binade x) (- 1022)"
  have q: "quantum x = 2 powi (e' - 52)" by (simp add: quantum_def e'_def)
  have "(of_int m :: rat) < 2 ^ 53"
    using assms(2) by (metis of_int_less_iff of_int_numeral of_int_power)
  then have "x < 2 ^ 53 * 2 powi j" by (simp add: x_def)
  also have "\<dots> = 2 powi (53 + j)" by (simp add: two_powi_add)
  finally have "x < 2 powi (53 + j)" .
  with binade_bounds [OF \<open>x \<noteq> 0\<close>] x have "(2::rat) powi binade x < 2 powi (53 + j)" by simp
  then have "binade x < 53 + j" by (rule two_powi_less)
  with assms(3) have d: "0 \<le> j - (e' - 52)" by (simp add: e'_def)
  have sc: "of_int m * 2 powi (j - (e' - 52)) * (2::rat) powi (e' - 52) = x"
    by (simp add: two_powi_diff [of j] x_def)
  have "x / quantum x = x / 2 powi (e' - 52)" by (simp only: q)
  also have "\<dots> = of_int m * 2 powi (j - (e' - 52))"
    by (simp add: sc [symmetric])
  also have "\<dots> = of_int (m * 2 ^ nat (j - (e' - 52)))"
    using d by (simp add: power_int_def)
  finally have "rhe (x / quantum x) = m * 2 ^ nat (j - (e' - 52))" by (simp only: rhe_of_int)
  then have "to_double x = of_int (m * 2 ^ nat (j - (e' - 52))) * quantum x"
    by (simp add: to_double_pos [OF x])
  also have "\<dots> = of_int m * 2 powi (j - (e' - 52)) * quantum x"
    using d by (simp add: power_int_def)
  also have "\<dots> = x" by (simp only: q sc)
  finally show ?thesis by (simp add: x_def)
qed

lemma to_double_exact:
  assumes "\<bar>m\<bar> < 2 ^ 53" and "- 1074 \<le> j"
  shows "to_double (of_int m * 2 powi j) = of_int m * 2 powi j"
proof -
  consider "m = 0" | "0 < m" | "m < 0" by linarith
  then show ?thesis
  proof cases
    case 1
    then show ?thesis by (simp add: to_double_0)
  next
    case 2
    then show ?thesis using assms by (intro to_double_exact_pos) simp_all
  next
    case 3
    then have "to_double (of_int (- m) * 2 powi j) = of_int (- m) * 2 powi j"
      using assms by (intro to_double_exact_pos) simp_all
    then show ?thesis by (simp add: to_double_minus)
  qed
qed

lemma to_double_of_int: "\<bar>n\<bar> < 2 ^ 53 \<Longrightarrow> to_double (of_int n) = of_int n"
  using to_double_exact [of n 0] by simp

lemma to_double_numeral [simp]: "numeral n < (2 ^ 53 :: int) \<Longrightarrow> to_double (numeral n) = numeral n"
  using to_double_of_int [of "numeral n"] by simp

lemma to_double_1 [simp]: "to_double 1 = 1"
  using to_double_of_int [of 1] by simp

section \<open>Decimal strings read back\<close>

text \<open>
  \<^verbatim>\<open>parseFloat(x.toFixed(f))\<close> is the double nearest to \<open>x\<close> rounded to \<open>f\<close> decimals, for
  \<open>f > 0\<close>: the digits \<open>toFixed\<close> writes are the digits \<open>parseFloat\<close> reads.
\<close>

lemma digit_char_is_digit: "is_digit (digit_char d)"
proof -
  have "d mod 10 = 0 \<or> d mod 10 = 1 \<or> d mod 10 = 2 \<or> d mod 10 = 3 \<or> d mod 10 = 4
      \<or> d mod 10 = 5 \<or> d mod 10 = 6 \<or> d mod 10 = 7 \<or> d mod 10 = 8 \<or> d mod 10 = 9"
    by presburger
  then show ?thesis
    by (auto simp: is_digit_def digit_char_def)
qed

lemma digit_val_digit_char: "d < 10 \<Longrightarrow> digit_val (digit_char d) = d"
proof -
  assume "d < 10"
  then have "d = 0 \<or> d = 1 \<or> d = 2 \<or> d = 3 \<or> d = 4 \<or> d = 5 \<or> d = 6 \<or> d = 7 \<or> d = 8 \<or> d = 9"
    by presburger
  then show ?thesis
    by (auto simp: digit_val_def digit_char_def)
qed

lemma digits_all_digit: "\<forall>c \<in> set (digits n). is_digit c"
proof (induction n rule: digits.induct)
  case (1 n)
  show ?case
  proof (cases "n < 10")
    case True
    then show ?thesis by (subst digits.simps) (simp add: digit_char_is_digit)
  next
    case False
    with 1 show ?thesis by (subst digits.simps) (simp add: digit_char_is_digit)
  qed
qed

lemma digits_nonempty: "digits n \<noteq> []"
  by (subst digits.simps) simp

lemma decimal_val_snoc: "decimal_val (xs @ [c]) = decimal_val xs * 10 + digit_val c"
  by (simp add: decimal_val_def)

lemma decimal_val_append: "decimal_val (xs @ ys) = decimal_val xs * 10 ^ length ys + decimal_val ys"
proof (induction ys rule: rev_induct)
  case Nil
  then show ?case by (simp add: decimal_val_def)
next
  case (snoc y ys)
  have "decimal_val (xs @ ys @ [y]) = decimal_val ((xs @ ys) @ [y])" by simp
  also have "\<dots> = decimal_val (xs @ ys) * 10 + digit_val y" by (rule decimal_val_snoc)
  finally show ?case using snoc by (simp add: decimal_val_snoc algebra_simps)
qed

lemma decimal_val_digits: "decimal_val (digits n) = n"
proof (induction n rule: digits.induct)
  case (1 n)
  show ?case
  proof (cases "n < 10")
    case True
    then show ?thesis
      by (subst digits.simps) (simp add: decimal_val_def digit_val_digit_char)
  next
    case False
    with 1 have "decimal_val (digits (n div 10)) = n div 10" by simp
    with False show ?thesis
      by (subst digits.simps) (simp add: decimal_val_snoc digit_val_digit_char)
  qed
qed

lemma decimal_val_zeros: "decimal_val (replicate k (CHR ''0'') @ xs) = decimal_val xs"
proof -
  have "decimal_val (replicate k (CHR ''0'')) = 0"
  proof (induction k)
    case 0
    show ?case by (simp add: decimal_val_def)
  next
    case (Suc k)
    have "decimal_val (replicate (Suc k) (CHR ''0'')) = decimal_val (replicate k (CHR ''0'') @ [CHR ''0''])"
      by (simp add: replicate_append_same)
    also have "\<dots> = 0"
      using Suc by (simp add: decimal_val_snoc digit_val_def)
    finally show ?case .
  qed
  then show ?thesis by (simp add: decimal_val_append)
qed


lemma not_digit_simps: "\<not> is_digit (CHR ''.'')" "\<not> is_digit (CHR ''-'')" "\<not> is_digit (CHR ''+'')"
  by (simp_all add: is_digit_def)

lemma parse_decimal_fixed:
  assumes "ip \<noteq> []" and "\<forall>c\<in>set ip. is_digit c" and "\<forall>c\<in>set fp. is_digit c"
  shows "parse_decimal (ip @ ''.'' @ fp)
           = Some (of_nat (decimal_val ip) + of_nat (decimal_val fp) / 10 ^ length fp)"
proof -
  have tw: "takeWhile is_digit (ip @ ''.'' @ fp) = ip"
    using assms(2) by (simp add: takeWhile_append2 not_digit_simps)
  have dw: "dropWhile is_digit (ip @ ''.'' @ fp) = ''.'' @ fp"
    using assms(2) by (simp add: dropWhile_append2 not_digit_simps)
  have fw: "takeWhile is_digit fp = fp"
    using assms(3) by (simp add: takeWhile_eq_all_conv)
  show ?thesis
    unfolding parse_decimal_def tw dw using assms(1) by (simp add: fw)
qed

lemma parseFloat_unsigned:
  assumes "ip \<noteq> []" and "\<forall>c\<in>set ip. is_digit c" and "\<forall>c\<in>set fp. is_digit c"
  shows "parseFloat (ip @ ''.'' @ fp)
           = Num (to_double (of_nat (decimal_val ip) + of_nat (decimal_val fp) / 10 ^ length fp))"
proof -
  from assms(1) obtain c cs where ip: "ip = c # cs" by (cases ip) auto
  with assms(2) have c: "is_digit c" by simp
  then have c': "c \<noteq> CHR ''-''" "c \<noteq> CHR ''+''" using not_digit_simps by auto
  show ?thesis
    using c' parse_decimal_fixed [OF assms] by (simp add: parseFloat_def ip)
qed

lemma parseFloat_negative:
  assumes "ip \<noteq> []" and "\<forall>c\<in>set ip. is_digit c" and "\<forall>c\<in>set fp. is_digit c"
  shows "parseFloat (''-'' @ ip @ ''.'' @ fp)
           = Num (to_double (- (of_nat (decimal_val ip) + of_nat (decimal_val fp) / 10 ^ length fp)))"
  using parse_decimal_fixed [OF assms] by (simp add: parseFloat_def)

lemma padded_digit: "\<forall>c\<in>set (padded f n). is_digit c"
  using digits_all_digit [of n] by (auto simp: padded_def Let_def is_digit_def)

lemma padded_length: "0 < f \<Longrightarrow> f < length (padded f n)"
  by (auto simp: padded_def Let_def)

lemma padded_val: "decimal_val (padded f n) = n"
  by (simp add: padded_def Let_def decimal_val_zeros decimal_val_digits)

lemma toFixed_padded:
  "toFixed f (Num x) =
     (let s = (if x < 0 then ''-'' else []);
          m = padded f (nat \<lfloor>\<bar>x\<bar> * 10 ^ f + 1 / 2\<rfloor>);
          k = length m
      in if f = 0 then s @ m else s @ take (k - f) m @ ''.'' @ drop (k - f) m)"
  by (simp add: padded_def Let_def)

lemma parseFloat_toFixed:
  assumes "0 < f"
  shows "parseFloat (toFixed f (Num x)) = Num (to_double (round_dec f x))"
proof -
  define n where "n = nat \<lfloor>\<bar>x\<bar> * 10 ^ f + 1 / 2\<rfloor>"
  define m where "m = padded f n"
  define ip where "ip = take (length m - f) m"
  define fp where "fp = drop (length m - f) m"
  have len: "f < length m" using assms by (simp add: m_def padded_length)
  have m: "m = ip @ fp" by (simp add: ip_def fp_def)
  have dig: "\<forall>c\<in>set m. is_digit c" by (simp add: m_def padded_digit)
  have ipd: "\<forall>c\<in>set ip. is_digit c" and fpd: "\<forall>c\<in>set fp. is_digit c"
    using dig by (auto simp: m)
  have ipn: "ip \<noteq> []" using len by (auto simp: ip_def)
  have fpl: "length fp = f" using len by (simp add: fp_def)
  have "decimal_val ip * 10 ^ f + decimal_val fp = n"
    using decimal_val_append [of ip fp] by (simp add: m [symmetric] fpl m_def padded_val)
  then have "(of_nat (decimal_val ip) :: rat) * 10 ^ f + of_nat (decimal_val fp) = of_nat n"
    by (metis of_nat_add of_nat_mult of_nat_numeral of_nat_power)
  then have v: "(of_nat (decimal_val ip) :: rat) + of_nat (decimal_val fp) / 10 ^ length fp
                  = of_nat n / 10 ^ f"
    by (simp add: fpl field_simps)
  have nn: "(of_nat n :: rat) = of_int \<lfloor>\<bar>x\<bar> * 10 ^ f + 1 / 2\<rfloor>"
  proof -
    have "0 \<le> \<bar>x\<bar> * 10 ^ f + 1 / 2" by simp
    then have "0 \<le> \<lfloor>\<bar>x\<bar> * 10 ^ f + 1 / 2\<rfloor>" by (simp only: zero_le_floor)
    then show ?thesis by (simp add: n_def)
  qed
  have tf: "toFixed f (Num x) = (if x < 0 then ''-'' else []) @ ip @ ''.'' @ fp"
    using assms by (simp add: toFixed_padded Let_def ip_def fp_def m_def n_def del: toFixed.simps)
  show ?thesis
  proof (cases "x < 0")
    case True
    then show ?thesis
      using parseFloat_negative [OF ipn ipd fpd] by (simp add: tf v nn round_dec_def del: toFixed.simps)
  next
    case False
    then show ?thesis
      using parseFloat_unsigned [OF ipn ipd fpd] by (simp add: tf v nn round_dec_def del: toFixed.simps)
  qed
qed

lemma parseFloat_NaN: "parseFloat (toFixed f NaN) = NaN"
  by (simp add: parseFloat_def parse_decimal_def is_digit_def)

section \<open>Rounding to one decimal\<close>

lemma parseFloat_toFixed1: "parseFloat (toFixed 1 (Num x)) = Num (to_double (round1 x))"
  using parseFloat_toFixed [of 1 x] by (simp add: round1_def del: toFixed.simps)

lemma parseFloat_toFixed_Suc0: "parseFloat (toFixed (Suc 0) (Num x)) = Num (to_double (round1 x))"
  using parseFloat_toFixed1 [of x] by (simp del: toFixed.simps)

lemma round1_nonneg: "0 \<le> x \<Longrightarrow> round1 x = of_int \<lfloor>x * 10 + 1 / 2\<rfloor> / 10"
  by (simp add: round1_def round_dec_def)

lemma round1_neg: "x < 0 \<Longrightarrow> round1 x = - (of_int \<lfloor>- x * 10 + 1 / 2\<rfloor> / 10)"
  by (simp add: round1_def round_dec_def)

lemma round1_mono:
  assumes "x \<le> y"
  shows "round1 x \<le> round1 y"
proof -
  consider "0 \<le> x" | "x < 0" "y < 0" | "x < 0" "0 \<le> y" by linarith
  then show ?thesis
  proof cases
    case 1
    with assms have "0 \<le> y" by simp
    have "\<lfloor>x * 10 + 1 / 2\<rfloor> \<le> \<lfloor>y * 10 + 1 / 2\<rfloor>"
      using assms by (intro floor_mono) simp
    then show ?thesis
      using 1 \<open>0 \<le> y\<close> by (simp add: round1_nonneg divide_right_mono)
  next
    case 2
    have "\<lfloor>- y * 10 + 1 / 2\<rfloor> \<le> \<lfloor>- x * 10 + 1 / 2\<rfloor>"
      using assms by (intro floor_mono) simp
    then show ?thesis
      using 2 by (simp add: round1_neg divide_right_mono)
  next
    case 3
    have "0 \<le> - x * 10 + 1 / 2" using 3 by simp
    then have "0 \<le> \<lfloor>- x * 10 + 1 / 2\<rfloor>" by (simp only: zero_le_floor)
    then have a: "round1 x \<le> 0" using 3 by (simp add: round1_neg)
    have "0 \<le> y * 10 + 1 / 2" using 3 by simp
    then have "0 \<le> \<lfloor>y * 10 + 1 / 2\<rfloor>" by (simp only: zero_le_floor)
    then have "0 \<le> round1 y" using 3 by (simp add: round1_nonneg)
    with a show ?thesis by simp
  qed
qed

lemma round1_of_int: "round1 (of_int k) = of_int k"
proof (cases "0 \<le> k")
  case True
  have "\<lfloor>(of_int k :: rat) * 10 + 1 / 2\<rfloor> = k * 10"
    by (rule floor_unique) simp_all
  then show ?thesis using True by (simp add: round1_nonneg)
next
  case False
  have "\<lfloor>- (of_int k :: rat) * 10 + 1 / 2\<rfloor> = - k * 10"
    by (rule floor_unique) simp_all
  then show ?thesis using False by (simp add: round1_neg)
qed

lemma round1_100: "round1 100 = 100"
  using round1_of_int [of 100] by simp

lemma round1_0: "round1 0 = 0"
  using round1_of_int [of 0] by simp

lemma round1_le_100: "x \<le> 100 \<Longrightarrow> round1 x \<le> 100"
  using round1_mono [of x 100] by (simp add: round1_100)

lemma round1_ge_0: "0 \<le> x \<Longrightarrow> 0 \<le> round1 x"
  using round1_mono [of 0 x] by (simp add: round1_0)

lemma round1_error: "\<bar>round1 x - x\<bar> \<le> 1 / 20"
proof (cases "0 \<le> x")
  case True
  define z where "z = \<lfloor>x * 10 + 1 / 2\<rfloor>"
  have "of_int z \<le> x * 10 + 1 / 2" "x * 10 + 1 / 2 < of_int z + 1"
    unfolding z_def by linarith+
  moreover have "round1 x = of_int z / 10" using True by (simp add: round1_nonneg z_def)
  ultimately show ?thesis by linarith
next
  case False
  define z where "z = \<lfloor>- x * 10 + 1 / 2\<rfloor>"
  have "of_int z \<le> - x * 10 + 1 / 2" "- x * 10 + 1 / 2 < of_int z + 1"
    unfolding z_def by linarith+
  moreover have "round1 x = - (of_int z / 10)" using False by (simp add: round1_neg z_def)
  ultimately show ?thesis by linarith
qed

section \<open>Evaluating on numerals\<close>

lemma floor_rat_numeral: "\<lfloor>numeral a / numeral b :: rat\<rfloor> = numeral a div numeral b"
  using floor_divide_of_int_eq [of "numeral a" "numeral b", where ?'a = rat] by simp

lemma digits_small: "n < 10 \<Longrightarrow> digits n = [digit_char n]"
  by (subst digits.simps) simp

lemma digits_large: "10 \<le> n \<Longrightarrow> digits n = digits (n div 10) @ [digit_char (n mod 10)]"
  by (subst digits.simps) simp

lemmas decimal_eval = floor_rat_numeral digits_small digits_large digit_char_def

lemmas round1_eval = curve_def round1_def round_dec_def floor_rat_numeral

lemmas double_eval = rhe_def floor_rat_numeral Let_def

section \<open>The classifier\<close>

text \<open>
  C4. \<open>classifyRisk\<close> is the threshold function: a score below 25 is Low, from 25 and
  below 50 Moderate, from 50 and below 75 High, from 75 on Severe; the boundaries 24.9, 25,
  49.9, 50, 74.9 and 75 fall as the spec lists them. The function is total; on \<open>NaN\<close>, for
  which no comparison holds, it answers Severe.
\<close>

theorem classifyRisk_thresholds:
  "(s < 25 \<longrightarrow> classifyRisk (Num s) = Low) \<and>
   (25 \<le> s \<and> s < 50 \<longrightarrow> classifyRisk (Num s) = Moderate) \<and>
   (50 \<le> s \<and> s < 75 \<longrightarrow> classifyRisk (Num s) = High) \<and>
   (75 \<le> s \<longrightarrow> classifyRisk (Num s) = Severe) \<and>
   classifyRisk (Num 24.9) = Low \<and> classifyRisk (Num 25) = Moderate \<and>
   classifyRisk (Num 49.9) = Moderate \<and> classifyRisk (Num 50) = High \<and>
   classifyRisk (Num 74.9) = High \<and> classifyRisk (Num 75) = Severe \<and>
   classifyRisk NaN = Severe"
  by (simp add: classifyRisk_def)

theorem classifyRisk_thresholds_witness:
  "(10::rat) < 25 \<and> classifyRisk (Num 10) = Low \<and>
   (25::rat) \<le> 30 \<and> (30::rat) < 50 \<and> classifyRisk (Num 30) = Moderate \<and>
   (50::rat) \<le> 60 \<and> (60::rat) < 75 \<and> classifyRisk (Num 60) = High \<and>
   (75::rat) \<le> 90 \<and> classifyRisk (Num 90) = Severe"
  using classifyRisk_thresholds [of 10] classifyRisk_thresholds [of 30]
    classifyRisk_thresholds [of 60] classifyRisk_thresholds [of 90]
  by simp

section \<open>The region resolver\<close>

text \<open>
  C3. \<open>getRegionProfile(12.97, 77.59)\<close> matches none of the nine boxes and returns the
  default profile of region "Interior India", named after the coordinates rounded to two
  decimals. This holds for the decimal coordinates and for the binary floating-point
  numbers nearest to them, which are what the program receives.
\<close>

theorem getRegionProfile_bengaluru:
  "getRegionProfile 12.97 77.59 =
     \<lparr>name = ''Location (12.97'' @ degree_sign @ ''N, 77.59'' @ degree_sign @ ''E)'',
      region = ''Interior India'',
      flood_base = 38, sea_level_base = 12, heat_base = 68, water_scarcity_base = 55\<rparr>
   \<and> getRegionProfile (7301460895874417 / 562949953421312) (2729955430372475 / 35184372088832) =
     \<lparr>name = ''Location (12.97'' @ degree_sign @ ''N, 77.59'' @ degree_sign @ ''E)'',
      region = ''Interior India'',
      flood_base = 38, sea_level_base = 12, heat_base = 68, water_scarcity_base = 55\<rparr>"
  by (simp add: getRegionProfile_def decimal_eval)

section \<open>The factor scorer\<close>

lemma lookup_modifier_constructor: "lookup_modifier ''constructor'' = Inherited"
  by (simp add: lookup_modifier_def get_property_def PROPERTY_MODIFIERS_def Object_prototype_keys_def)

lemma lookup_modifier_toString: "lookup_modifier ''toString'' = Inherited"
  by (simp add: lookup_modifier_def get_property_def PROPERTY_MODIFIERS_def Object_prototype_keys_def)

lemma lookup_modifier_residential:
  "lookup_modifier ''residential'' = Own \<lparr>flood = 0, heat = 5, sea = 0, water = 0\<rparr>"
  by (simp add: lookup_modifier_def get_property_def PROPERTY_MODIFIERS_def)

lemma lookup_modifier_unknown:
  assumes "propertyType \<notin> fst ` set PROPERTY_MODIFIERS"
    and "propertyType \<notin> set Object_prototype_keys"
  shows "lookup_modifier propertyType = lookup_modifier ''residential''"
proof -
  from assms(1) have "map_of PROPERTY_MODIFIERS propertyType = None"
    by (simp add: map_of_eq_None_iff)
  with assms(2) have "get_property propertyType = Undefined"
    by (simp add: get_property_def)
  then show ?thesis
    by (simp add: lookup_modifier_def get_property_def PROPERTY_MODIFIERS_def)
qed

lemma lookup_modifier_cases:
  "lookup_modifier propertyType = Inherited \<and> propertyType \<in> set Object_prototype_keys
   \<or> (\<exists>m \<in> snd ` set PROPERTY_MODIFIERS. lookup_modifier propertyType = Own m)"
proof (cases "map_of PROPERTY_MODIFIERS propertyType")
  case None
  then show ?thesis
    by (simp add: lookup_modifier_def get_property_def) (simp add: PROPERTY_MODIFIERS_def)
next
  case (Some m)
  then have "(propertyType, m) \<in> set PROPERTY_MODIFIERS" by (rule map_of_SomeD)
  then have "m \<in> snd ` set PROPERTY_MODIFIERS" by force
  with Some show ?thesis
    by (simp add: lookup_modifier_def get_property_def)
qed

lemma calculateFactorScores_unknown_type:
  assumes "propertyType \<notin> fst ` set PROPERTY_MODIFIERS"
    and "propertyType \<notin> set Object_prototype_keys"
  shows "calculateFactorScores lat lng propertyType u1 u2 u3 u4
           = calculateFactorScores lat lng ''residential'' u1 u2 u3 u4"
  unfolding calculateFactorScores_def lookup_modifier_unknown [OF assms] ..

lemma clamp_NaN: "clamp NaN = NaN"
  by (simp add: clamp_def)

lemma clamp_Num: "clamp (Num x) = Num (max 0 (min 100 (of_int \<lfloor>x + 1 / 2\<rfloor>)))"
  by (simp add: clamp_def)

lemma clamp_range: "\<exists>n::int. 0 \<le> n \<and> n \<le> 100 \<and> clamp (Num x) = Num (of_int n)"
proof -
  have "max 0 (min 100 (of_int \<lfloor>x + 1 / 2\<rfloor>)) = (of_int (max 0 (min 100 \<lfloor>x + 1 / 2\<rfloor>)) :: rat)"
    by (simp add: max_def min_def)
  then show ?thesis
    by (intro exI [of _ "max 0 (min 100 \<lfloor>x + 1 / 2\<rfloor>)"]) (simp add: clamp_Num)
qed

lemma lookup_modifier_inherited:
  "propertyType \<in> set Object_prototype_keys \<Longrightarrow> lookup_modifier propertyType = Inherited"
  by (auto simp: lookup_modifier_def get_property_def PROPERTY_MODIFIERS_def Object_prototype_keys_def)

text \<open>
  With a modifier record each score is the clamped, rounded sum the scorer computes, a whole
  number from 0 to 100; with an inherited name the scores are all \<open>NaN\<close>.
\<close>

lemma to_double_half: "to_double (1 / 2) = 1 / 2"
proof -
  have "to_double (of_int 1 * 2 powi (- 1)) = of_int 1 * 2 powi (- 1)"
    by (rule to_double_exact) simp_all
  then show ?thesis by (simp add: power_int_minus)
qed

lemma noise_Num: "noise u = Num (to_double (to_double (u - 1 / 2) * 12))"
  by (simp add: noise_def lit_def to_double_half)

lemma hazard_score_range:
  "\<exists>n::int. 0 \<le> n \<and> n \<le> 100 \<and> hazard_score b m u = Num (of_int n)"
  unfolding hazard_score_def noise_Num by simp (rule clamp_range)

lemma scores_computed:
  assumes "lookup_modifier propertyType = Own m"
  shows "map score (calculateFactorScores lat lng propertyType u1 u2 u3 u4) =
     (let profile = getRegionProfile lat lng in
      [hazard_score (flood_base profile) (flood m) u1,
       hazard_score (sea_level_base profile) (sea m) u2,
       hazard_score (heat_base profile) (heat m) u3,
       hazard_score (water_scarcity_base profile) (water m) u4])"
  by (simp add: calculateFactorScores_def Let_def assms hazard_score_def del: toFixed.simps)

lemma weighted_scores_computed:
  assumes "lookup_modifier propertyType = Own m"
  shows "map weighted_score (calculateFactorScores lat lng propertyType u1 u2 u3 u4) =
     (let profile = getRegionProfile lat lng in
      [parseFloat (toFixed 1 (hazard_score (flood_base profile) (flood m) u1 * lit 0.35)),
       parseFloat (toFixed 1 (hazard_score (sea_level_base profile) (sea m) u2 * lit 0.25)),
       parseFloat (toFixed 1 (hazard_score (heat_base profile) (heat m) u3 * lit 0.25)),
       parseFloat (toFixed 1 (hazard_score (water_scarcity_base profile) (water m) u4 * lit 0.15))])"
  by (simp add: calculateFactorScores_def Let_def assms hazard_score_def del: toFixed.simps)

lemma calculateFactorScores_inherited:
  assumes "propertyType \<in> set Object_prototype_keys"
  shows "map score (calculateFactorScores lat lng propertyType u1 u2 u3 u4) = [NaN, NaN, NaN, NaN]"
  by (simp add: calculateFactorScores_def Let_def lookup_modifier_inherited [OF assms] clamp_NaN
        noise_def del: toFixed.simps)

text \<open>
  C5. For all coordinates, every property-type string and all draws of the noise source,
  \<open>calculateFactorScores\<close> returns four entries, named Flood Probability, Sea-Level Rise
  Exposure, Heat Stress Index and Water Scarcity Projection in this order, with the weights
  0.35, 0.25, 0.25 and 0.15, which sum to 1.
\<close>

theorem calculateFactorScores_weights:
  "length (calculateFactorScores lat lng propertyType u1 u2 u3 u4) = 4 \<and>
   map factor (calculateFactorScores lat lng propertyType u1 u2 u3 u4)
     = [''Flood Probability'', ''Sea-Level Rise Exposure'', ''Heat Stress Index'',
        ''Water Scarcity Projection''] \<and>
   map weight (calculateFactorScores lat lng propertyType u1 u2 u3 u4)
     = [0.35, 0.25, 0.25, 0.15] \<and>
   sum_list (map weight (calculateFactorScores lat lng propertyType u1 u2 u3 u4)) = 1"
  by (simp add: calculateFactorScores_def Let_def del: toFixed.simps)

text \<open>
  The weight fields hold the decimals the source writes. Where the source computes with a
  weight, it is the double nearest to that decimal; added up as doubles, in the order of
  the list, the four weights also give 1.
\<close>

lemma weights_double_sum: "lit 0.35 + lit 0.25 + lit 0.25 + lit 0.15 = Num 1"
proof -
  have d1: "to_double (7 / 20) = 3152519739159347 / 9007199254740992"
    using to_double_eval [of "- 2" "7 / 20"] by (simp add: double_eval)
  have d2: "to_double (1 / 4) = 1 / 4"
    using to_double_eval [of "- 2" "1 / 4"] by (simp add: double_eval)
  have d3: "to_double (3 / 20) = 5404319552844595 / 36028797018963968"
    using to_double_eval [of "- 3" "3 / 20"] by (simp add: double_eval)
  have d4: "to_double (5404319552844595 / 9007199254740992) = 5404319552844595 / 9007199254740992"
    using to_double_eval [of "- 1" "5404319552844595 / 9007199254740992"] by (simp add: double_eval)
  have d5: "to_double (7656119366529843 / 9007199254740992) = 7656119366529843 / 9007199254740992"
    using to_double_eval [of "- 1" "7656119366529843 / 9007199254740992"] by (simp add: double_eval)
  have d6: "to_double (36028797018963967 / 36028797018963968) = 1"
    using to_double_eval [of "- 1" "36028797018963967 / 36028797018963968"] by (simp add: double_eval)
  show ?thesis by (simp add: lit_def d1 d2 d3 d4 d5 d6)
qed

text \<open>
  So every score is a whole number from 0 to 100 unless the property type is a name the
  modifier table inherits.
\<close>

lemma calculateFactorScores_score_range:
  assumes "propertyType \<notin> set Object_prototype_keys"
  shows "\<forall>f \<in> set (calculateFactorScores lat lng propertyType u1 u2 u3 u4).
           \<exists>n::int. 0 \<le> n \<and> n \<le> 100 \<and> score f = Num (of_int n)"
proof -
  from lookup_modifier_cases [of propertyType] assms
  obtain m where m: "lookup_modifier propertyType = Own m" by auto
  have "\<forall>s \<in> set (map score (calculateFactorScores lat lng propertyType u1 u2 u3 u4)).
           \<exists>n::int. 0 \<le> n \<and> n \<le> 100 \<and> s = Num (of_int n)"
    unfolding scores_computed [OF m] Let_def using hazard_score_range by simp
  then show ?thesis by simp
qed

text \<open>
  C8. The claim is that every score lies in \<open>[0, 100]\<close> for every property type. For the
  property type \<^verbatim>\<open>toString\<close> the table read finds the inherited method, its offsets are
  \<^verbatim>\<open>undefined\<close>, and all four scores are \<open>NaN\<close>, which is in no interval.
\<close>

theorem calculateFactorScores_toString_scores:
  "map score (calculateFactorScores 19.05 72.83 ''toString'' 0.5 0.5 0.5 0.5)
     = [NaN, NaN, NaN, NaN] \<and>
   map (\<lambda>f. Num 0 \<le> score f \<and> score f \<le> Num 100)
     (calculateFactorScores 19.05 72.83 ''toString'' 0.5 0.5 0.5 0.5)
     = [False, False, False, False]"
  by (simp add: calculateFactorScores_def Let_def lookup_modifier_toString clamp_NaN noise_def
        del: toFixed.simps)

text \<open>
  C9. The claim is that every property type outside the five tags gives the result of
  \<^verbatim>\<open>residential\<close>. \<^verbatim>\<open>constructor\<close> is outside the five tags, and for all coordinates and
  draws its four scores are \<open>NaN\<close>, so the result differs from the residential one.
\<close>

theorem calculateFactorScores_constructor:
  "''constructor'' \<notin> fst ` set PROPERTY_MODIFIERS \<and>
   map score (calculateFactorScores lat lng ''constructor'' u1 u2 u3 u4) = [NaN, NaN, NaN, NaN] \<and>
   calculateFactorScores lat lng ''constructor'' u1 u2 u3 u4
     \<noteq> calculateFactorScores lat lng ''residential'' u1 u2 u3 u4"
proof -
  have a: "map score (calculateFactorScores lat lng ''constructor'' u1 u2 u3 u4) = [NaN, NaN, NaN, NaN]"
    by (simp add: calculateFactorScores_def Let_def lookup_modifier_constructor clamp_NaN noise_def
          del: toFixed.simps)
  have b: "map score (calculateFactorScores lat lng ''residential'' u1 u2 u3 u4) \<noteq> [NaN, NaN, NaN, NaN]"
    by (simp add: calculateFactorScores_def Let_def lookup_modifier_residential clamp_Num noise_Num
          del: toFixed.simps)
  have c: "''constructor'' \<notin> fst ` set PROPERTY_MODIFIERS"
    by (simp add: PROPERTY_MODIFIERS_def)
  from a b c show ?thesis by metis
qed

section \<open>The lending adjustment generator\<close>

text \<open>
  C1, as stated: five adjustments, all critical. At sea sub-score 60 the coastal rule gives
  severity warning (critical needs a sub-score above 70), so the list is not the claimed one.
\<close>

theorem lending_fixture_all_critical_counterexample:
  "map (\<lambda>a. (adj_type a, severity a))
       (generateLendingAdjustments (Num 82) Severe ''residential'' lending_fixture)
     \<noteq> [(interest_rate, critical), (insurance, critical), (insurance, critical),
         (loan_cap, critical), (enhanced_due_diligence, critical)]"
  by (simp add: generateLendingAdjustments_def Let_def find_score_def lending_fixture_def
        del: toFixed.simps)

text \<open>
  C1, amended. For score 82, classification Severe, property type \<^verbatim>\<open>residential\<close> and any
  factor list whose flood sub-score is 70 and sea sub-score is 60, the result is five
  adjustments in this order: the rate premium "+2.5% p.a." (critical), mandatory flood
  insurance (critical), coastal hazard insurance (warning), the cap "Max 60% LTV"
  (critical) and enhanced due diligence (critical).
\<close>

theorem lending_fixture_severe:
  assumes "find_score fs ''Flood Probability'' (Num 0) = Num 70"
    and "find_score fs ''Sea-Level Rise Exposure'' (Num 0) = Num 60"
  shows "map (\<lambda>a. (adj_type a, title a, adj_value a, severity a))
           (generateLendingAdjustments (Num 82) Severe ''residential'' fs)
         = [(interest_rate, ''Climate Risk Premium'', Some ''+2.5% p.a.'', critical),
            (insurance, ''Mandatory Flood Insurance'', Some ''Mandatory'', critical),
            (insurance, ''Coastal Hazard Insurance'', Some ''Required'', warning),
            (loan_cap, ''Loan-to-Value Cap'', Some ''Max 60% LTV'', critical),
            (enhanced_due_diligence, ''Enhanced Climate Due Diligence'', Some ''Required'', critical)]"
  by (simp add: generateLendingAdjustments_def Let_def assms to_string_def decimal_eval)

lemma lending_fixture_scores:
  "find_score lending_fixture ''Flood Probability'' (Num 0) = Num 70"
  "find_score lending_fixture ''Sea-Level Rise Exposure'' (Num 0) = Num 60"
  by (simp_all add: find_score_def lending_fixture_def)

theorem lending_fixture_severe_witness:
  "map (\<lambda>a. (adj_type a, title a, adj_value a, severity a))
           (generateLendingAdjustments (Num 82) Severe ''residential'' lending_fixture)
         = [(interest_rate, ''Climate Risk Premium'', Some ''+2.5% p.a.'', critical),
            (insurance, ''Mandatory Flood Insurance'', Some ''Mandatory'', critical),
            (insurance, ''Coastal Hazard Insurance'', Some ''Required'', warning),
            (loan_cap, ''Loan-to-Value Cap'', Some ''Max 60% LTV'', critical),
            (enhanced_due_diligence, ''Enhanced Climate Due Diligence'', Some ''Required'', critical)]"
  by (rule lending_fixture_severe [OF lending_fixture_scores])

text \<open>The first rule fires as soon as the score is not below 25, whatever the rest.\<close>

lemma classifyRisk_Low_iff: "classifyRisk s = Low \<longleftrightarrow> s < Num 25"
  by (simp add: classifyRisk_def)

lemma rate_positive:
  "0 < x \<Longrightarrow> 0 < y \<Longrightarrow> 0 < z \<Longrightarrow> 0 < (if a then x else if b then y else (z :: rat))"
  by simp

lemma premium_is_first:
  assumes "\<not> s < Num 25"
  shows "generateLendingAdjustments s c propertyType fs \<noteq> [] \<and>
         adj_type (hd (generateLendingAdjustments s c propertyType fs)) = interest_rate"
  using assms
  by (simp add: generateLendingAdjustments_def Let_def rate_positive
        split del: if_split del: toFixed.simps)

lemma standard_terms_emitted:
  "\<exists>a \<in> set (generateLendingAdjustments s Low propertyType fs).
      adj_type a = risk_warning \<and> title a = ''Standard Lending Terms Applicable''
      \<and> severity a = info"
  by (simp add: generateLendingAdjustments_def Let_def bex_Un
        split del: if_split del: toFixed.simps)

text \<open>
  C10. When the classification is the one \<open>classifyRisk\<close> gives for the score, the list of
  adjustments is not empty: with Low it contains the "standard terms" notice, otherwise it
  starts with the rate premium. This also holds for a \<open>NaN\<close> score.
\<close>

theorem generateLendingAdjustments_nonempty:
  "generateLendingAdjustments s (classifyRisk s) propertyType fs \<noteq> [] \<and>
   (classifyRisk s = Low \<longrightarrow>
      (\<exists>a \<in> set (generateLendingAdjustments s (classifyRisk s) propertyType fs).
         adj_type a = risk_warning \<and> title a = ''Standard Lending Terms Applicable''
         \<and> severity a = info)) \<and>
   (classifyRisk s \<noteq> Low \<longrightarrow>
      adj_type (hd (generateLendingAdjustments s (classifyRisk s) propertyType fs)) = interest_rate)"
proof (cases "classifyRisk s = Low")
  case True
  have "\<exists>a \<in> set (generateLendingAdjustments s Low propertyType fs).
      adj_type a = risk_warning \<and> title a = ''Standard Lending Terms Applicable''
      \<and> severity a = info"
    by (rule standard_terms_emitted)
  then show ?thesis using True by auto
next
  case False
  then have "\<not> s < Num 25" by (simp add: classifyRisk_Low_iff)
  from premium_is_first [OF this] show ?thesis using False by simp
qed

theorem generateLendingAdjustments_nonempty_witness:
  "classifyRisk (Num 10) = Low \<and> classifyRisk (Num 82) \<noteq> Low \<and>
   generateLendingAdjustments (Num 10) (classifyRisk (Num 10)) ''residential'' lending_fixture \<noteq> [] \<and>
   (\<exists>a \<in> set (generateLendingAdjustments (Num 10) (classifyRisk (Num 10)) ''residential'' lending_fixture).
      adj_type a = risk_warning \<and> title a = ''Standard Lending Terms Applicable''
      \<and> severity a = info) \<and>
   adj_type (hd (generateLendingAdjustments (Num 82) (classifyRisk (Num 82)) ''residential'' lending_fixture))
     = interest_rate"
proof -
  have low: "classifyRisk (Num 10) = Low" and high: "classifyRisk (Num 82) \<noteq> Low"
    by (simp_all add: classifyRisk_def)
  from generateLendingAdjustments_nonempty [of "Num 10" "''residential''" lending_fixture]
    generateLendingAdjustments_nonempty [of "Num 82" "''residential''" lending_fixture]
    low high
  show ?thesis by blast
qed

section \<open>The projection generator\<close>

text \<open>
  Point \<open>i\<close> of the projection for sub-scores that are numbers: each hazard is the
  trajectory as the source computes it, rounded to one decimal and read back as a double,
  and the composite is the weighted sum of the four unrounded trajectories, treated alike.
\<close>

lemma find_score_finite:
  assumes "\<forall>f \<in> set fs. score f \<noteq> NaN"
  shows "\<exists>b. find_score fs nm (Num d) = Num b"
proof (cases "find (\<lambda>f. factor f = nm) fs")
  case None
  then show ?thesis by (simp add: find_score_def)
next
  case (Some f)
  then have "f \<in> set fs" by (auto simp: find_Some_iff)
  with assms have "score f \<noteq> NaN" by simp
  then obtain b where "score f = Num b" by (cases "score f") auto
  with Some show ?thesis by (simp add: find_score_def)
qed

lemma generateProjections_length: "length (generateProjections y fs) = 11"
  by (simp add: generateProjections_def Let_def del: toFixed.simps upt_rec_numeral)

lemma generateProjections_nth:
  assumes "find_score fs ''Flood Probability'' (Num 50) = Num fb"
    and "find_score fs ''Heat Stress Index'' (Num 50) = Num hb"
    and "find_score fs ''Sea-Level Rise Exposure'' (Num 50) = Num sb"
    and "find_score fs ''Water Scarcity Projection'' (Num 50) = Num wb"
    and "i < 11"
  shows "generateProjections y fs ! i =
     \<lparr>year = y + int i * 2,
      flood_risk = Num (to_double (round1 (double_curve fb 18 7 i))),
      heat_stress = Num (to_double (round1 (double_curve hb 15 9 i))),
      sea_level_rise = Num (to_double (round1 (double_curve sb 22 5 i))),
      water_scarcity = Num (to_double (round1 (double_curve wb 12 6 i))),
      composite_risk = Num (to_double (round1 (double_composite
         (double_curve fb 18 7 i) (double_curve sb 22 5 i)
         (double_curve hb 15 9 i) (double_curve wb 12 6 i))))\<rparr>"
proof -
  have "generateProjections y fs ! i = (map (\<lambda>i.
           let year = y + int i * 2;
               t = Num (to_double (of_nat i / 10));
               flood_risk     = Math_min (Num 100) (Num fb + t * Num 18 + t * t * Num 7);
               heat_stress    = Math_min (Num 100) (Num hb + t * Num 15 + t * t * Num 9);
               sea_level_rise = Math_min (Num 100) (Num sb + t * Num 22 + t * t * Num 5);
               water_scarcity = Math_min (Num 100) (Num wb + t * Num 12 + t * t * Num 6);
               composite_risk = parseFloat (toFixed 1
                 (flood_risk * lit 0.35 + sea_level_rise * lit 0.25
                  + heat_stress * lit 0.25 + water_scarcity * lit 0.15))
           in \<lparr>year = year,
               flood_risk     = parseFloat (toFixed 1 flood_risk),
               heat_stress    = parseFloat (toFixed 1 heat_stress),
               sea_level_rise = parseFloat (toFixed 1 sea_level_rise),
               water_scarcity = parseFloat (toFixed 1 water_scarcity),
               composite_risk = composite_risk\<rparr>)
         [0 ..< 11]) ! i"
    unfolding generateProjections_def assms(1-4) Let_def ..
  also have "\<dots> = \<lparr>year = y + int i * 2,
      flood_risk = Num (to_double (round1 (double_curve fb 18 7 i))),
      heat_stress = Num (to_double (round1 (double_curve hb 15 9 i))),
      sea_level_rise = Num (to_double (round1 (double_curve sb 22 5 i))),
      water_scarcity = Num (to_double (round1 (double_curve wb 12 6 i))),
      composite_risk = Num (to_double (round1 (double_composite
         (double_curve fb 18 7 i) (double_curve sb 22 5 i)
         (double_curve hb 15 9 i) (double_curve wb 12 6 i))))\<rparr>"
    using assms(5)
    by (subst nth_map_upt)
       (simp_all add: Let_def double_curve_def double_composite_def lit_def
          parseFloat_toFixed_Suc0 del: toFixed.simps upt_rec_numeral)
  finally show ?thesis .
qed

text \<open>
  The trajectory grows with the index, since both rates are non-negative and rounding to a
  double keeps the order.
\<close>

lemma double_curve_mono:
  assumes "i \<le> j" and "0 \<le> r1" and "0 \<le> r2"
  shows "double_curve b r1 r2 i \<le> double_curve b r1 r2 j"
proof -
  define s :: rat where "s = to_double (of_nat i / 10)"
  define t :: rat where "t = to_double (of_nat j / 10)"
  have "(of_nat i / 10 :: rat) \<le> of_nat j / 10" using assms(1) by simp
  then have st: "s \<le> t" unfolding s_def t_def by (rule to_double_mono)
  have s0: "0 \<le> s" unfolding s_def by (rule to_double_nonneg) simp
  have "s * r1 \<le> t * r1" using st assms(2) by (rule mult_right_mono)
  then have "to_double (s * r1) \<le> to_double (t * r1)" by (rule to_double_mono)
  then have "b + to_double (s * r1) \<le> b + to_double (t * r1)" by simp
  then have linear: "to_double (b + to_double (s * r1)) \<le> to_double (b + to_double (t * r1))"
    by (rule to_double_mono)
  have "s * s \<le> t * t" using st s0 by (intro mult_mono) simp_all
  then have "to_double (s * s) \<le> to_double (t * t)" by (rule to_double_mono)
  then have "to_double (s * s) * r2 \<le> to_double (t * t) * r2"
    using assms(3) by (rule mult_right_mono)
  then have square: "to_double (to_double (s * s) * r2) \<le> to_double (to_double (t * t) * r2)"
    by (rule to_double_mono)
  from linear square
  have "to_double (b + to_double (s * r1)) + to_double (to_double (s * s) * r2)
      \<le> to_double (b + to_double (t * r1)) + to_double (to_double (t * t) * r2)"
    by (rule add_mono)
  then have "to_double (to_double (b + to_double (s * r1)) + to_double (to_double (s * s) * r2))
      \<le> to_double (to_double (b + to_double (t * r1)) + to_double (to_double (t * t) * r2))"
    by (rule to_double_mono)
  then show ?thesis
    by (simp add: double_curve_def Let_def s_def [symmetric] t_def [symmetric] min_le_iff_disj)
qed

lemma double_curve_le_100: "double_curve b r1 r2 i \<le> 100"
  by (simp add: double_curve_def Let_def)

lemma series_step:
  assumes "i \<le> j" and "0 \<le> r1" and "0 \<le> r2"
  shows "to_double (round1 (double_curve b r1 r2 i)) \<le> to_double (round1 (double_curve b r1 r2 j))"
    and "to_double (round1 (double_curve b r1 r2 j)) \<le> 100"
    and "to_double (round1 (double_curve b r1 r2 i)) = 100
           \<Longrightarrow> to_double (round1 (double_curve b r1 r2 j)) = 100"
proof -
  show a: "to_double (round1 (double_curve b r1 r2 i)) \<le> to_double (round1 (double_curve b r1 r2 j))"
    using assms by (intro to_double_mono round1_mono double_curve_mono)
  have "round1 (double_curve b r1 r2 j) \<le> 100"
    by (intro round1_le_100 double_curve_le_100)
  then have "to_double (round1 (double_curve b r1 r2 j)) \<le> to_double 100"
    by (rule to_double_mono)
  then show b: "to_double (round1 (double_curve b r1 r2 j)) \<le> 100" by simp
  show "to_double (round1 (double_curve b r1 r2 j)) = 100"
    if "to_double (round1 (double_curve b r1 r2 i)) = 100"
    using a b that by simp
qed

lemma lending_fixture_bases:
  "find_score lending_fixture ''Flood Probability'' (Num 50) = Num 70"
  "find_score lending_fixture ''Heat Stress Index'' (Num 50) = Num 90"
  "find_score lending_fixture ''Sea-Level Rise Exposure'' (Num 50) = Num 60"
  "find_score lending_fixture ''Water Scarcity Projection'' (Num 50) = Num 80"
  by (simp_all add: find_score_def lending_fixture_def)

text \<open>
  How far the doubles of the source are from exact arithmetic. A rounding moves a number of
  magnitude at most \<open>2\<^sup>k\<close> by at most \<open>2\<^sup>k\<^sup>-\<^sup>5\<^sup>3\<close>; the errors of the operands pass through
  a product and a minimum as below.
\<close>

lemma to_double_error:
  assumes "\<bar>x\<bar> \<le> 2 ^ k"
  shows "\<bar>to_double x - x\<bar> \<le> 2 ^ k / 2 ^ 53"
proof -
  have "\<bar>x\<bar> \<le> 2 powi (int k)" using assms by simp
  then have "\<bar>to_double x - x\<bar> \<le> 2 powi (int k - 53)"
    by (rule to_double_err) simp
  also have "(2::rat) powi (int k - 53) = 2 ^ k / 2 ^ 53"
    by (simp add: power_int_diff)
  finally show ?thesis .
qed

lemma to_double_le:
  assumes "x \<le> of_int n" and "\<bar>n\<bar> < 2 ^ 53"
  shows "to_double x \<le> of_int n"
proof -
  have "to_double x \<le> to_double (of_int n)" using assms(1) by (rule to_double_mono)
  then show ?thesis using assms(2) by (simp add: to_double_of_int)
qed

lemma product_error:
  fixes f w :: rat
  assumes "\<bar>f - F\<bar> \<le> e1" and "\<bar>w - W\<bar> \<le> e2" and "\<bar>w\<bar> \<le> wm" and "\<bar>F\<bar> \<le> Fm"
  shows "\<bar>f * w - F * W\<bar> \<le> e1 * wm + Fm * e2"
proof -
  have "f * w - F * W = (f - F) * w + F * (w - W)" by (simp add: algebra_simps)
  then have "\<bar>f * w - F * W\<bar> \<le> \<bar>(f - F) * w\<bar> + \<bar>F * (w - W)\<bar>"
    by (simp add: abs_triangle_ineq)
  also have "\<dots> = \<bar>f - F\<bar> * \<bar>w\<bar> + \<bar>F\<bar> * \<bar>w - W\<bar>" by (simp add: abs_mult)
  also have "\<dots> \<le> e1 * wm + Fm * e2"
  proof (rule add_mono)
    have "0 \<le> e1" using assms(1) by linarith
    then show "\<bar>f - F\<bar> * \<bar>w\<bar> \<le> e1 * wm" using assms(1,3) by (intro mult_mono) simp_all
    have "0 \<le> Fm" using assms(4) by linarith
    then show "\<bar>F\<bar> * \<bar>w - W\<bar> \<le> Fm * e2" using assms(2,4) by (intro mult_mono) simp_all
  qed
  finally show ?thesis .
qed

lemma min_error:
  fixes u v :: rat
  assumes "\<bar>u - v\<bar> \<le> e"
  shows "\<bar>min c u - min c v\<bar> \<le> e"
  using assms unfolding min_def by (cases "c \<le> u"; cases "c \<le> v") auto

text \<open>
  The trajectory in doubles is within \<open>2\<^sup>-\<^sup>4\<^sup>3\<close> of the exact one for a base in \<open>[0, 100]\<close>,
  and the composite in doubles within \<open>6288 / 2\<^sup>5\<^sup>3\<close> of the exact weighted sum.
\<close>

lemma double_curve_error:
  assumes b: "0 \<le> b" "b \<le> 100" and r1: "0 \<le> r1" "r1 \<le> 32" and r2: "0 \<le> r2" "r2 \<le> 16"
    and i: "i \<le> 10"
  shows "\<bar>double_curve b r1 r2 i - curve b r1 r2 i\<bar> \<le> 1 / 2 ^ 43"
    and "0 \<le> double_curve b r1 r2 i"
proof -
  define x :: rat where "x = of_nat i / 10"
  define t where "t = to_double x"
  define a where "a = to_double (t * r1)"
  define s1 where "s1 = to_double (b + a)"
  define tt where "tt = to_double (t * t)"
  define bb where "bb = to_double (tt * r2)"
  define s2 where "s2 = to_double (s1 + bb)"
  have x: "0 \<le> x" "x \<le> 1" using i by (simp_all add: x_def)
  have t: "0 \<le> t" "t \<le> 1"
    using x to_double_nonneg [of x] to_double_le [of x 1] by (simp_all add: t_def)
  have et: "\<bar>t - x\<bar> \<le> 1 / 2 ^ 53"
    using to_double_error [of x 0] x by (simp add: t_def)
  have tr: "0 \<le> t * r1" "t * r1 \<le> 32"
    using t r1 mult_mono [of t 1 r1 32] by simp_all
  have a: "0 \<le> a" "a \<le> 32"
    using tr to_double_nonneg [of "t * r1"] to_double_le [of "t * r1" 32] by (simp_all add: a_def)
  have ea: "\<bar>a - t * r1\<bar> \<le> 32 / 2 ^ 53"
    using to_double_error [of "t * r1" 5] tr by (simp add: a_def)
  have etr: "\<bar>t * r1 - x * r1\<bar> \<le> 32 / 2 ^ 53"
    using product_error [of t x "1 / 2 ^ 53" r1 r1 0 32 1] et r1 x by simp
  have s1: "0 \<le> s1" "s1 \<le> 132"
    using a b to_double_nonneg [of "b + a"] to_double_le [of "b + a" 132] by (simp_all add: s1_def)
  have es1: "\<bar>s1 - (b + a)\<bar> \<le> 256 / 2 ^ 53"
    using to_double_error [of "b + a" 8] a b by (simp add: s1_def)
  have t2: "0 \<le> t * t" "t * t \<le> 1"
    using t mult_mono [of t 1 t 1] by simp_all
  have tt: "0 \<le> tt" "tt \<le> 1"
    using t2 to_double_nonneg [of "t * t"] to_double_le [of "t * t" 1] by (simp_all add: tt_def)
  have ett: "\<bar>tt - t * t\<bar> \<le> 1 / 2 ^ 53"
    using to_double_error [of "t * t" 0] t2 by (simp add: tt_def)
  have et2: "\<bar>t * t - x * x\<bar> \<le> 2 / 2 ^ 53"
    using product_error [of t x "1 / 2 ^ 53" t x "1 / 2 ^ 53" 1 1] et t x by simp
  have ttx: "\<bar>tt - x * x\<bar> \<le> 3 / 2 ^ 53" using ett et2 by linarith
  have ttr: "0 \<le> tt * r2" "tt * r2 \<le> 16"
    using tt r2 mult_mono [of tt 1 r2 16] by simp_all
  have bb: "0 \<le> bb" "bb \<le> 16"
    using ttr to_double_nonneg [of "tt * r2"] to_double_le [of "tt * r2" 16] by (simp_all add: bb_def)
  have ebb: "\<bar>bb - tt * r2\<bar> \<le> 16 / 2 ^ 53"
    using to_double_error [of "tt * r2" 4] ttr by (simp add: bb_def)
  have ettr: "\<bar>tt * r2 - x * x * r2\<bar> \<le> 48 / 2 ^ 53"
    using product_error [of tt "x * x" "3 / 2 ^ 53" r2 r2 0 16 1] ttx r2 x
      mult_mono [of x 1 x 1] by simp
  have s2: "0 \<le> s2"
    using s1 bb to_double_nonneg [of "s1 + bb"] by (simp add: s2_def)
  have es2: "\<bar>s2 - (s1 + bb)\<bar> \<le> 256 / 2 ^ 53"
    using to_double_error [of "s1 + bb" 8] s1 bb by (simp add: s2_def)
  have "\<bar>a - x * r1\<bar> \<le> 64 / 2 ^ 53" using ea etr by linarith
  with es1 have linear: "\<bar>s1 - (b + x * r1)\<bar> \<le> 320 / 2 ^ 53" by linarith
  have square: "\<bar>bb - x * x * r2\<bar> \<le> 64 / 2 ^ 53" using ebb ettr by linarith
  have "\<bar>s2 - (b + x * r1 + x * x * r2)\<bar> \<le> 640 / 2 ^ 53"
    using linear square es2 by linarith
  then have total: "\<bar>s2 - (b + x * r1 + x * x * r2)\<bar> \<le> 1 / 2 ^ 43" by simp
  have dc: "double_curve b r1 r2 i = min 100 s2"
    by (simp add: double_curve_def Let_def x_def t_def a_def s1_def tt_def bb_def s2_def)
  have c: "curve b r1 r2 i = min 100 (b + x * r1 + x * x * r2)"
    by (simp add: curve_def Let_def x_def)
  show "\<bar>double_curve b r1 r2 i - curve b r1 r2 i\<bar> \<le> 1 / 2 ^ 43"
    unfolding dc c using total by (rule min_error)
  show "0 \<le> double_curve b r1 r2 i"
    unfolding dc using s2 by simp
qed

lemma curve_range:
  assumes "0 \<le> b" and "0 \<le> r1" and "0 \<le> r2"
  shows "0 \<le> curve b r1 r2 i" and "curve b r1 r2 i \<le> 100"
  using assms by (simp_all add: curve_def Let_def)

lemma weighted_term_error:
  assumes "0 \<le> f" and "f \<le> 100" and "\<bar>f - F\<bar> \<le> 1 / 2 ^ 43" and "0 \<le> F" and "F \<le> 100"
    and "0 \<le> c" and "c \<le> 1"
  shows "\<bar>to_double (f * to_double c) - F * c\<bar> \<le> 1252 / 2 ^ 53"
    and "0 \<le> to_double (f * to_double c)"
    and "to_double (f * to_double c) \<le> 100"
proof -
  define w where "w = to_double c"
  have w: "0 \<le> w" "w \<le> 1"
    using assms(6,7) to_double_nonneg [of c] to_double_le [of c 1] by (simp_all add: w_def)
  have ew: "\<bar>w - c\<bar> \<le> 1 / 2 ^ 53"
    using to_double_error [of c 0] assms(6,7) by (simp add: w_def)
  have fw: "0 \<le> f * w" "f * w \<le> 100"
    using assms(1,2) w mult_mono [of f 100 w 1] by simp_all
  have ep: "\<bar>to_double (f * w) - f * w\<bar> \<le> 128 / 2 ^ 53"
    using to_double_error [of "f * w" 7] fw by simp
  have "\<bar>f * w - F * c\<bar> \<le> 1 / 2 ^ 43 * 1 + 100 * (1 / 2 ^ 53)"
    using assms(3) ew w assms(4,5) by (intro product_error) simp_all
  then have "\<bar>f * w - F * c\<bar> \<le> 1124 / 2 ^ 53" by simp
  with ep show "\<bar>to_double (f * to_double c) - F * c\<bar> \<le> 1252 / 2 ^ 53"
    unfolding w_def [symmetric] by linarith
  show "0 \<le> to_double (f * to_double c)"
    unfolding w_def [symmetric] using fw(1) by (rule to_double_nonneg)
  show "to_double (f * to_double c) \<le> 100"
    unfolding w_def [symmetric] using fw(2) to_double_le [of "f * w" 100] by simp
qed

lemma double_composite_error:
  assumes "0 \<le> f" and "f \<le> 100" and "\<bar>f - F\<bar> \<le> 1 / 2 ^ 43" and "0 \<le> F" and "F \<le> 100"
    and "0 \<le> s" and "s \<le> 100" and "\<bar>s - S\<bar> \<le> 1 / 2 ^ 43" and "0 \<le> S" and "S \<le> 100"
    and "0 \<le> h" and "h \<le> 100" and "\<bar>h - H\<bar> \<le> 1 / 2 ^ 43" and "0 \<le> H" and "H \<le> 100"
    and "0 \<le> w" and "w \<le> 100" and "\<bar>w - W\<bar> \<le> 1 / 2 ^ 43" and "0 \<le> W" and "W \<le> 100"
  shows "\<bar>double_composite f s h w - (0.35 * F + 0.25 * S + 0.25 * H + 0.15 * W)\<bar>
           \<le> 6288 / 2 ^ 53"
    and "0 \<le> double_composite f s h w"
    and "double_composite f s h w \<le> 400"
proof -
  define p1 where "p1 = to_double (f * to_double 0.35)"
  define p2 where "p2 = to_double (s * to_double 0.25)"
  define p3 where "p3 = to_double (h * to_double 0.25)"
  define p4 where "p4 = to_double (w * to_double 0.15)"
  define q1 where "q1 = to_double (p1 + p2)"
  define q2 where "q2 = to_double (q1 + p3)"
  define q3 where "q3 = to_double (q2 + p4)"
  note t1 = weighted_term_error [OF assms(1-5), of "0.35", folded p1_def]
  note t2 = weighted_term_error [OF assms(6-10), of "0.25", folded p2_def]
  note t3 = weighted_term_error [OF assms(11-15), of "0.25", folded p3_def]
  note t4 = weighted_term_error [OF assms(16-20), of "0.15", folded p4_def]
  have p1: "\<bar>p1 - F * 0.35\<bar> \<le> 1252 / 2 ^ 53" "0 \<le> p1" "p1 \<le> 100" using t1 by simp_all
  have p2: "\<bar>p2 - S * 0.25\<bar> \<le> 1252 / 2 ^ 53" "0 \<le> p2" "p2 \<le> 100" using t2 by simp_all
  have p3: "\<bar>p3 - H * 0.25\<bar> \<le> 1252 / 2 ^ 53" "0 \<le> p3" "p3 \<le> 100" using t3 by simp_all
  have p4: "\<bar>p4 - W * 0.15\<bar> \<le> 1252 / 2 ^ 53" "0 \<le> p4" "p4 \<le> 100" using t4 by simp_all
  have q1: "0 \<le> q1" "q1 \<le> 200"
    using p1 p2 to_double_nonneg [of "p1 + p2"] to_double_le [of "p1 + p2" 200]
    by (simp_all add: q1_def)
  have e1: "\<bar>q1 - (p1 + p2)\<bar> \<le> 256 / 2 ^ 53"
    using to_double_error [of "p1 + p2" 8] p1 p2 by (simp add: q1_def)
  have q2: "0 \<le> q2" "q2 \<le> 300"
    using q1 p3 to_double_nonneg [of "q1 + p3"] to_double_le [of "q1 + p3" 300]
    by (simp_all add: q2_def)
  have e2: "\<bar>q2 - (q1 + p3)\<bar> \<le> 512 / 2 ^ 53"
    using to_double_error [of "q1 + p3" 9] q1 p3 by (simp add: q2_def)
  have q3: "0 \<le> q3" "q3 \<le> 400"
    using q2 p4 to_double_nonneg [of "q2 + p4"] to_double_le [of "q2 + p4" 400]
    by (simp_all add: q3_def)
  have e3: "\<bar>q3 - (q2 + p4)\<bar> \<le> 512 / 2 ^ 53"
    using to_double_error [of "q2 + p4" 9] q2 p4 by (simp add: q3_def)
  have "\<bar>q1 - (F * 0.35 + S * 0.25)\<bar> \<le> 2760 / 2 ^ 53"
    using e1 p1(1) p2(1) by linarith
  with e2 p3(1) have "\<bar>q2 - (F * 0.35 + S * 0.25 + H * 0.25)\<bar> \<le> 4524 / 2 ^ 53"
    by linarith
  with e3 p4(1) have "\<bar>q3 - (F * 0.35 + S * 0.25 + H * 0.25 + W * 0.15)\<bar> \<le> 6288 / 2 ^ 53"
    by linarith
  moreover have dc: "double_composite f s h w = q3"
    by (simp add: double_composite_def p1_def p2_def p3_def p4_def q1_def q2_def q3_def)
  ultimately show "\<bar>double_composite f s h w - (0.35 * F + 0.25 * S + 0.25 * H + 0.15 * W)\<bar>
           \<le> 6288 / 2 ^ 53"
    by (simp add: mult.commute)
  show "0 \<le> double_composite f s h w" "double_composite f s h w \<le> 400"
    using q3 by (simp_all add: dc)
qed

text \<open>The value stored: rounded to one decimal and read back.\<close>

lemma stored_error:
  assumes "0 \<le> m" and "m \<le> 400" and "\<bar>m - E\<bar> \<le> d" and "d \<le> 6288 / 2 ^ 53"
  shows "\<bar>to_double (round1 m) - E\<bar> \<le> 1 / 20 + 1 / 2 ^ 40"
proof -
  have "round1 m \<le> round1 (of_int 400)" using assms(2) by (intro round1_mono) simp
  then have "round1 m \<le> 400" unfolding round1_of_int by simp
  moreover have "0 \<le> round1 m" using assms(1) by (rule round1_ge_0)
  ultimately have "\<bar>to_double (round1 m) - round1 m\<bar> \<le> 512 / 2 ^ 53"
    using to_double_error [of "round1 m" 9] by simp
  moreover note round1_error [of m]
  ultimately have "\<bar>to_double (round1 m) - E\<bar> \<le> 1 / 20 + 6800 / 2 ^ 53"
    using assms(3,4) by linarith
  then show ?thesis by simp
qed

text \<open>
  The fixture with sea sub-score 60 and heat sub-score 90, evaluated step by step: the sea
  trajectory at indices 3 and 5, the heat trajectory at index 6.
\<close>

lemma fixture_sea_3: "double_curve 60 22 5 3 = 4718224297112371 / 70368744177664"
proof -
  have d1: "to_double (3 / 10) = 5404319552844595 / 18014398509481984"
    using to_double_eval [of "- 2" "3 / 10"] by (simp add: double_eval)
  have d2: "to_double (59447515081290545 / 9007199254740992) = 3715469692580659 / 562949953421312"
    using to_double_eval [of 2 "59447515081290545 / 9007199254740992"] by (simp add: double_eval)
  have d3: "to_double (37492466897859379 / 562949953421312) = 2343279181116211 / 35184372088832"
    using to_double_eval [of 6 "37492466897859379 / 562949953421312"] by (simp add: double_eval)
  have d4: "to_double (29206669829258403248756220714025 / 324518553658426726783156020576256) = 3242591731706757 / 36028797018963968"
    using to_double_eval [of "- 4" "29206669829258403248756220714025 / 324518553658426726783156020576256"] by (simp add: double_eval)
  have d5: "to_double (16212958658533785 / 36028797018963968) = 2026619832316723 / 4503599627370496"
    using to_double_eval [of "- 2" "16212958658533785 / 36028797018963968"] by (simp add: double_eval)
  have d6: "to_double (301966355015191731 / 4503599627370496) = 4718224297112371 / 70368744177664"
    using to_double_eval [of 6 "301966355015191731 / 4503599627370496"] by (simp add: double_eval)
  show ?thesis by (simp add: double_curve_def d1 d2 d3 d4 d5 d6)
qed

lemma fixture_sea_5: "double_curve 60 22 5 5 = 289 / 4"
proof -
  have d1: "to_double (1 / 2) = 1 / 2"
    using to_double_eval [of "- 1" "1 / 2"] by (simp add: double_eval)
  have d2: "to_double (1 / 4) = 1 / 4"
    using to_double_eval [of "- 2" "1 / 4"] by (simp add: double_eval)
  have d3: "to_double (5 / 4) = 5 / 4"
    using to_double_eval [of 0 "5 / 4"] by (simp add: double_eval)
  have d4: "to_double (289 / 4) = 289 / 4"
    using to_double_eval [of 6 "289 / 4"] by (simp add: double_eval)
  show ?thesis by (simp add: double_curve_def d1 d2 d3 d4)
qed

lemma fixture_heat_6: "double_curve 90 15 9 6 = 100"
proof -
  have d1: "to_double (3 / 5) = 5404319552844595 / 9007199254740992"
    using to_double_eval [of "- 1" "3 / 5"] by (simp add: double_eval)
  have d2: "to_double (81064793292668925 / 9007199254740992) = 9"
    using to_double_eval [of 3 "81064793292668925 / 9007199254740992"] by (simp add: double_eval)
  have d3: "to_double (29206669829258403248756220714025 / 81129638414606681695789005144064) = 3242591731706757 / 9007199254740992"
    using to_double_eval [of "- 2" "29206669829258403248756220714025 / 81129638414606681695789005144064"] by (simp add: double_eval)
  have d4: "to_double (29183325585360813 / 9007199254740992) = 7295831396340203 / 2251799813685248"
    using to_double_eval [of 1 "29183325585360813 / 9007199254740992"] by (simp add: double_eval)
  have d5: "to_double (230224012951179755 / 2251799813685248) = 7194500404724367 / 70368744177664"
    using to_double_eval [of 6 "230224012951179755 / 2251799813685248"] by (simp add: double_eval)
  show ?thesis by (simp add: double_curve_def d1 d2 d3 d4 d5)
qed

text \<open>
  C6, as stated: each hazard value is the trajectory \<open>min(100, base + t*rate1 + t\<^sup>2*rate2)\<close>
  rounded to one decimal. For the factor list with sea sub-score 60 the trajectory is 67.05
  at index 3 and 72.25 at index 5, each halfway between two one-decimal numbers. The source
  evaluates it in doubles: at index 3 the sum of doubles falls just below 67.05 and the
  value stored is 67, where 67.05 rounded to one decimal is 67.1; at index 5 the sum is
  72.25 exactly and the value stored is 72.3, the upper neighbour. So the value stored is
  not the exact trajectory rounded to one decimal, whichever way a tie is meant to go.
\<close>

theorem generateProjections_round1_counterexample:
  "curve 60 22 5 3 = 67.05 \<and> round1 (curve 60 22 5 3) = 67.1 \<and>
   sea_level_rise (generateProjections 2026 lending_fixture ! 3) = Num 67 \<and>
   sea_level_rise (generateProjections 2026 lending_fixture ! 3) \<noteq> lit (round1 (curve 60 22 5 3)) \<and>
   curve 60 22 5 5 = 72.25 \<and>
   sea_level_rise (generateProjections 2026 lending_fixture ! 5) = lit 72.3"
proof -
  have c3: "curve 60 22 5 3 = 1341 / 20" by (simp add: curve_def)
  have c5: "curve 60 22 5 5 = 289 / 4" by (simp add: curve_def)
  have r3: "round1 (1341 / 20) = 671 / 10" by (simp add: round1_eval)
  have d: "to_double (671 / 10) = 2360871367160627 / 35184372088832"
    using to_double_eval [of 6 "671 / 10"] by (simp add: double_eval)
  have s3: "sea_level_rise (generateProjections 2026 lending_fixture ! 3) = Num 67"
    by (simp add: generateProjections_nth [OF lending_fixture_bases] fixture_sea_3 round1_eval)
  have s5: "sea_level_rise (generateProjections 2026 lending_fixture ! 5) = lit (723 / 10)"
    by (simp add: generateProjections_nth [OF lending_fixture_bases] fixture_sea_5 round1_eval
          lit_def)
  show ?thesis
    unfolding s3 s5 c3 c5 r3 by (simp add: lit_def d)
qed

text \<open>
  C6, amended. For a factor list whose four sub-scores are numbers (\<open>fb\<close>, \<open>hb\<close>, \<open>sb\<close>,
  \<open>wb\<close>: the score of the first factor of each name, 50 where the name is missing),
  \<open>generateProjections\<close> returns 11 points, and point \<open>i\<close> has year \<open>currentYear + 2i\<close>.
  Each hazard is the trajectory evaluated in double arithmetic (\<open>t\<close> the double nearest to
  \<open>i/10\<close>, every product and sum rounded to the nearest double), with the rates (18,7) for
  flood, (15,9) for heat, (22,5) for sea and (12,6) for water, then rounded to one decimal
  and read back as a double. The composite is the weighted sum of the four trajectories
  before their rounding to one decimal, weights 0.35, 0.25, 0.25 and 0.15 on flood, sea,
  heat and water, evaluated in doubles and rounded likewise. When the sub-scores lie in
  \<open>[0, 100]\<close>, as the data model has them, each hazard value is within \<open>0.05 + 2\<^sup>-\<^sup>4\<^sup>0\<close> of
  the exact trajectory, the composite within \<open>0.05 + 2\<^sup>-\<^sup>4\<^sup>0\<close> of the exact weighted sum
  of the exact trajectories, and the composite at index 0 within \<open>0.05 + 2\<^sup>-\<^sup>4\<^sup>0\<close> of the
  weighted sum of the sub-scores.
\<close>

theorem generateProjections_double_formula:
  assumes "find_score fs ''Flood Probability'' (Num 50) = Num fb"
    and "find_score fs ''Heat Stress Index'' (Num 50) = Num hb"
    and "find_score fs ''Sea-Level Rise Exposure'' (Num 50) = Num sb"
    and "find_score fs ''Water Scarcity Projection'' (Num 50) = Num wb"
    and "i < 11"
  shows "length (generateProjections y fs) = 11 \<and>
     year (generateProjections y fs ! i) = y + 2 * int i \<and>
     flood_risk (generateProjections y fs ! i)
       = Num (to_double (round1 (double_curve fb 18 7 i))) \<and>
     heat_stress (generateProjections y fs ! i)
       = Num (to_double (round1 (double_curve hb 15 9 i))) \<and>
     sea_level_rise (generateProjections y fs ! i)
       = Num (to_double (round1 (double_curve sb 22 5 i))) \<and>
     water_scarcity (generateProjections y fs ! i)
       = Num (to_double (round1 (double_curve wb 12 6 i))) \<and>
     composite_risk (generateProjections y fs ! i)
       = Num (to_double (round1 (double_composite
           (double_curve fb 18 7 i) (double_curve sb 22 5 i)
           (double_curve hb 15 9 i) (double_curve wb 12 6 i)))) \<and>
     (0 \<le> fb \<and> fb \<le> 100 \<and> 0 \<le> hb \<and> hb \<le> 100 \<and> 0 \<le> sb \<and> sb \<le> 100 \<and> 0 \<le> wb \<and> wb \<le> 100 \<longrightarrow>
        \<bar>to_double (round1 (double_curve fb 18 7 i)) - curve fb 18 7 i\<bar> \<le> 1 / 20 + 1 / 2 ^ 40 \<and>
        \<bar>to_double (round1 (double_curve hb 15 9 i)) - curve hb 15 9 i\<bar> \<le> 1 / 20 + 1 / 2 ^ 40 \<and>
        \<bar>to_double (round1 (double_curve sb 22 5 i)) - curve sb 22 5 i\<bar> \<le> 1 / 20 + 1 / 2 ^ 40 \<and>
        \<bar>to_double (round1 (double_curve wb 12 6 i)) - curve wb 12 6 i\<bar> \<le> 1 / 20 + 1 / 2 ^ 40 \<and>
        \<bar>to_double (round1 (double_composite
             (double_curve fb 18 7 i) (double_curve sb 22 5 i)
             (double_curve hb 15 9 i) (double_curve wb 12 6 i)))
           - (0.35 * curve fb 18 7 i + 0.25 * curve sb 22 5 i
              + 0.25 * curve hb 15 9 i + 0.15 * curve wb 12 6 i)\<bar> \<le> 1 / 20 + 1 / 2 ^ 40 \<and>
        (\<exists>c. composite_risk (generateProjections y fs ! 0) = Num c \<and>
             \<bar>c - (0.35 * fb + 0.25 * sb + 0.25 * hb + 0.15 * wb)\<bar> \<le> 1 / 20 + 1 / 2 ^ 40))"
proof -
  note nth = generateProjections_nth [OF assms(1-4)]
  have hazard: "\<bar>to_double (round1 (double_curve b r1 r2 k)) - curve b r1 r2 k\<bar> \<le> 1 / 20 + 1 / 2 ^ 40"
    if "0 \<le> b" "b \<le> 100" "0 \<le> r1" "r1 \<le> 32" "0 \<le> r2" "r2 \<le> 16" "k \<le> 10" for b r1 r2 k
  proof -
    note e = double_curve_error [OF that]
    have "double_curve b r1 r2 k \<le> 400" using double_curve_le_100 [of b r1 r2 k] by simp
    with e(2) show ?thesis using e(1) by (rule stored_error) simp
  qed
  have composite: "\<bar>to_double (round1 (double_composite
             (double_curve fb 18 7 k) (double_curve sb 22 5 k)
             (double_curve hb 15 9 k) (double_curve wb 12 6 k)))
           - (0.35 * curve fb 18 7 k + 0.25 * curve sb 22 5 k
              + 0.25 * curve hb 15 9 k + 0.15 * curve wb 12 6 k)\<bar> \<le> 1 / 20 + 1 / 2 ^ 40"
    if b: "0 \<le> fb \<and> fb \<le> 100 \<and> 0 \<le> hb \<and> hb \<le> 100 \<and> 0 \<le> sb \<and> sb \<le> 100 \<and> 0 \<le> wb \<and> wb \<le> 100"
      and k: "k \<le> 10" for k
  proof -
    have f: "\<bar>double_curve fb 18 7 k - curve fb 18 7 k\<bar> \<le> 1 / 2 ^ 43" "0 \<le> double_curve fb 18 7 k"
      using b k by (intro double_curve_error; simp)+
    have s: "\<bar>double_curve sb 22 5 k - curve sb 22 5 k\<bar> \<le> 1 / 2 ^ 43" "0 \<le> double_curve sb 22 5 k"
      using b k by (intro double_curve_error; simp)+
    have h: "\<bar>double_curve hb 15 9 k - curve hb 15 9 k\<bar> \<le> 1 / 2 ^ 43" "0 \<le> double_curve hb 15 9 k"
      using b k by (intro double_curve_error; simp)+
    have w: "\<bar>double_curve wb 12 6 k - curve wb 12 6 k\<bar> \<le> 1 / 2 ^ 43" "0 \<le> double_curve wb 12 6 k"
      using b k by (intro double_curve_error; simp)+
    have cf: "0 \<le> curve fb 18 7 k" "curve fb 18 7 k \<le> 100"
      and cs: "0 \<le> curve sb 22 5 k" "curve sb 22 5 k \<le> 100"
      and ch: "0 \<le> curve hb 15 9 k" "curve hb 15 9 k \<le> 100"
      and cw: "0 \<le> curve wb 12 6 k" "curve wb 12 6 k \<le> 100"
      using b by (simp_all add: curve_range)
    note e = double_composite_error [OF f(2) double_curve_le_100 f(1) cf
        s(2) double_curve_le_100 s(1) cs h(2) double_curve_le_100 h(1) ch
        w(2) double_curve_le_100 w(1) cw]
    from e(2,3,1) show ?thesis by (rule stored_error) simp
  qed
  have zero: "\<exists>c. composite_risk (generateProjections y fs ! 0) = Num c \<and>
             \<bar>c - (0.35 * fb + 0.25 * sb + 0.25 * hb + 0.15 * wb)\<bar> \<le> 1 / 20 + 1 / 2 ^ 40"
    if b: "0 \<le> fb \<and> fb \<le> 100 \<and> 0 \<le> hb \<and> hb \<le> 100 \<and> 0 \<le> sb \<and> sb \<le> 100 \<and> 0 \<le> wb \<and> wb \<le> 100"
  proof -
    have c0: "curve fb 18 7 0 = fb" "curve sb 22 5 0 = sb" "curve hb 15 9 0 = hb" "curve wb 12 6 0 = wb"
      using b by (simp_all add: curve_def)
    from composite [OF b, of 0] show ?thesis
      unfolding c0 by (intro exI conjI) (simp_all add: nth [of 0])
  qed
  have i: "i \<le> 10" using assms(5) by simp
  show ?thesis
    using assms(5) zero composite [OF _ i] hazard [of _ _ _ i] i
    by (simp add: nth [of i] generateProjections_length)
qed

theorem generateProjections_double_formula_witness:
  "length (generateProjections 2026 lending_fixture) = 11 \<and>
   year (generateProjections 2026 lending_fixture ! 3) = 2032 \<and>
   sea_level_rise (generateProjections 2026 lending_fixture ! 3) = Num 67 \<and>
   \<bar>67 - curve 60 22 5 3\<bar> \<le> 1 / 20 + 1 / 2 ^ 40 \<and>
   (\<exists>c. composite_risk (generateProjections 2026 lending_fixture ! 0) = Num c \<and>
        \<bar>c - 74\<bar> \<le> 1 / 20 + 1 / 2 ^ 40)"
  using generateProjections_double_formula [OF lending_fixture_bases, of 3 2026]
  by (simp add: fixture_sea_3 round1_eval)

text \<open>
  C7. For a factor list whose scores are numbers, each of the four projected hazard series
  is non-decreasing over the 11 points, never exceeds 100, and stays at 100 from the first
  index at which it is 100.
\<close>

theorem generateProjections_monotone:
  assumes "\<forall>f \<in> set fs. score f \<noteq> NaN" and "i \<le> j" and "j < 11"
  shows "flood_risk (generateProjections y fs ! i) \<le> flood_risk (generateProjections y fs ! j) \<and>
     heat_stress (generateProjections y fs ! i) \<le> heat_stress (generateProjections y fs ! j) \<and>
     sea_level_rise (generateProjections y fs ! i) \<le> sea_level_rise (generateProjections y fs ! j) \<and>
     water_scarcity (generateProjections y fs ! i) \<le> water_scarcity (generateProjections y fs ! j) \<and>
     flood_risk (generateProjections y fs ! j) \<le> Num 100 \<and>
     heat_stress (generateProjections y fs ! j) \<le> Num 100 \<and>
     sea_level_rise (generateProjections y fs ! j) \<le> Num 100 \<and>
     water_scarcity (generateProjections y fs ! j) \<le> Num 100 \<and>
     (flood_risk (generateProjections y fs ! i) = Num 100
        \<longrightarrow> flood_risk (generateProjections y fs ! j) = Num 100) \<and>
     (heat_stress (generateProjections y fs ! i) = Num 100
        \<longrightarrow> heat_stress (generateProjections y fs ! j) = Num 100) \<and>
     (sea_level_rise (generateProjections y fs ! i) = Num 100
        \<longrightarrow> sea_level_rise (generateProjections y fs ! j) = Num 100) \<and>
     (water_scarcity (generateProjections y fs ! i) = Num 100
        \<longrightarrow> water_scarcity (generateProjections y fs ! j) = Num 100)"
proof -
  from find_score_finite [OF assms(1)] obtain fb hb sb wb where
    b: "find_score fs ''Flood Probability'' (Num 50) = Num fb"
       "find_score fs ''Heat Stress Index'' (Num 50) = Num hb"
       "find_score fs ''Sea-Level Rise Exposure'' (Num 50) = Num sb"
       "find_score fs ''Water Scarcity Projection'' (Num 50) = Num wb"
    by metis
  have i: "i < 11" using assms(2,3) by simp
  note at_i = generateProjections_nth [OF b i, of y]
  note at_j = generateProjections_nth [OF b assms(3), of y]
  show ?thesis
    using series_step [OF assms(2), of 18 7 fb] series_step [OF assms(2), of 15 9 hb]
      series_step [OF assms(2), of 22 5 sb] series_step [OF assms(2), of 12 6 wb]
    by (simp add: at_i at_j)
qed

theorem generateProjections_monotone_witness:
  "heat_stress (generateProjections 2026 lending_fixture ! 6) = Num 100 \<and>
   heat_stress (generateProjections 2026 lending_fixture ! 10) = Num 100 \<and>
   flood_risk (generateProjections 2026 lending_fixture ! 6)
     \<le> flood_risk (generateProjections 2026 lending_fixture ! 10) \<and>
   sea_level_rise (generateProjections 2026 lending_fixture ! 6)
     \<le> sea_level_rise (generateProjections 2026 lending_fixture ! 10) \<and>
   water_scarcity (generateProjections 2026 lending_fixture ! 6)
     \<le> water_scarcity (generateProjections 2026 lending_fixture ! 10) \<and>
   flood_risk (generateProjections 2026 lending_fixture ! 10) \<le> Num 100"
proof -
  have finite: "\<forall>f \<in> set lending_fixture. score f \<noteq> NaN"
    by (simp add: lending_fixture_def)
  have six: "heat_stress (generateProjections 2026 lending_fixture ! 6) = Num 100"
    by (simp add: generateProjections_nth [OF lending_fixture_bases] fixture_heat_6 round1_100)
  from generateProjections_monotone [OF finite, of 6 10 2026] six
  show ?thesis by simp
qed

section \<open>The assembled report\<close>

text \<open>
  A property type of the input record is one of the five tags, so the scorer works with a
  modifier record; each weighted score then lies between 0 and a hundred times its weight,
  and their sum, added up in doubles, between 0 and 100.
\<close>

lemma tag_lookup: "\<exists>m. lookup_modifier (tag pt) = Own m"
  by (cases pt) (simp_all add: lookup_modifier_def get_property_def PROPERTY_MODIFIERS_def)

lemma round1_above_int:
  assumes "0 \<le> k"
  shows "round1 (of_int k + 1 / 64) = of_int k"
proof -
  have "\<lfloor>(of_int k + 1 / 64) * 10 + 1 / 2 :: rat\<rfloor> = k * 10"
    by (rule floor_unique) (simp_all add: algebra_simps)
  moreover have "(0::rat) \<le> of_int k + 1 / 64" using assms by simp
  ultimately show ?thesis by (simp add: round1_nonneg)
qed

lemma to_double_above_int:
  assumes "0 \<le> k" and "k \<le> 100"
  shows "to_double (of_int k + 1 / 64) = of_int k + 1 / 64"
proof -
  have "to_double (of_int (64 * k + 1) * 2 powi (- 6)) = of_int (64 * k + 1) * 2 powi (- 6)"
    using assms by (intro to_double_exact) simp_all
  moreover have "(of_int (64 * k + 1) * 2 powi (- 6) :: rat) = of_int k + 1 / 64"
    by (simp add: power_int_minus field_simps)
  ultimately show ?thesis by (simp only:)
qed

lemma weighted_range:
  assumes "0 \<le> w" and "w \<le> 1" and "100 * w = of_int k"
  shows "\<exists>t. parseFloat (toFixed 1 (hazard_score b m u * lit w)) = Num t \<and> 0 \<le> t \<and> t \<le> of_int k"
proof -
  from hazard_score_range [of b m u] obtain n :: int
    where n: "0 \<le> n" "n \<le> 100" "hazard_score b m u = Num (of_int n)" by blast
  define d where "d = to_double w"
  define p where "p = to_double (of_int n * d)"
  have eq: "parseFloat (toFixed 1 (hazard_score b m u * lit w)) = Num (to_double (round1 p))"
    by (simp add: n(3) lit_def p_def d_def parseFloat_toFixed_Suc0 del: toFixed.simps)
  have "(0::rat) \<le> of_int k" "(of_int k :: rat) \<le> 100" using assms by linarith+
  then have k: "0 \<le> k" "k \<le> 100" by simp_all
  have d0: "0 \<le> d" unfolding d_def using assms(1) by (rule to_double_nonneg)
  have "\<bar>d - w\<bar> \<le> 1 / 2 ^ 53"
    using to_double_error [of w 0] assms(1,2) by (simp add: d_def)
  then have "d \<le> w + 1 / 2 ^ 53" by linarith
  then have "100 * d \<le> 100 * w + 100 / 2 ^ 53" by simp
  moreover have "(100 / 2 ^ 53 :: rat) \<le> 1 / 64" by simp
  ultimately have "100 * d \<le> of_int k + 1 / 64" using assms(3) by linarith
  moreover have "of_int n * d \<le> 100 * d" using n(2) d0 by (intro mult_right_mono) simp_all
  ultimately have "of_int n * d \<le> of_int k + 1 / 64" by linarith
  then have "p \<le> to_double (of_int k + 1 / 64)" unfolding p_def by (rule to_double_mono)
  then have "p \<le> of_int k + 1 / 64" by (simp only: to_double_above_int [OF k])
  then have "round1 p \<le> round1 (of_int k + 1 / 64)" by (rule round1_mono)
  then have "round1 p \<le> of_int k" by (simp only: round1_above_int [OF k(1)])
  then have hi: "to_double (round1 p) \<le> of_int k" using k by (intro to_double_le) simp_all
  have "0 \<le> of_int n * d" using n(1) d0 by simp
  then have "0 \<le> p" unfolding p_def by (rule to_double_nonneg)
  then have "0 \<le> round1 p" by (rule round1_ge_0)
  then have lo: "0 \<le> to_double (round1 p)" by (rule to_double_nonneg)
  from eq lo hi show ?thesis by blast
qed

lemma rawScore_range:
  assumes "lookup_modifier propertyType = Own m"
  shows "\<exists>t. foldl (\<lambda>sum f. sum + weighted_score f) (Num 0)
               (calculateFactorScores lat lng propertyType u1 u2 u3 u4) = Num t
             \<and> 0 \<le> t \<and> t \<le> 100"
proof -
  define profile where "profile = getRegionProfile lat lng"
  obtain t1 where t1: "parseFloat (toFixed 1 (hazard_score (flood_base profile) (flood m) u1 * lit 0.35)) = Num t1"
      "0 \<le> t1" "t1 \<le> 35"
    using weighted_range [of "0.35" 35] by force
  obtain t2 where t2: "parseFloat (toFixed 1 (hazard_score (sea_level_base profile) (sea m) u2 * lit 0.25)) = Num t2"
      "0 \<le> t2" "t2 \<le> 25"
    using weighted_range [of "0.25" 25] by force
  obtain t3 where t3: "parseFloat (toFixed 1 (hazard_score (heat_base profile) (heat m) u3 * lit 0.25)) = Num t3"
      "0 \<le> t3" "t3 \<le> 25"
    using weighted_range [of "0.25" 25] by force
  obtain t4 where t4: "parseFloat (toFixed 1 (hazard_score (water_scarcity_base profile) (water m) u4 * lit 0.15)) = Num t4"
      "0 \<le> t4" "t4 \<le> 15"
    using weighted_range [of "0.15" 15] by force
  define s1 where "s1 = to_double (0 + t1)"
  define s2 where "s2 = to_double (s1 + t2)"
  define s3 where "s3 = to_double (s2 + t3)"
  define s4 where "s4 = to_double (s3 + t4)"
  have s1: "0 \<le> s1" "s1 \<le> 35"
    using t1 to_double_nonneg [of "0 + t1"] to_double_le [of "0 + t1" 35] by (simp_all add: s1_def)
  have s2: "0 \<le> s2" "s2 \<le> 60"
    using s1 t2 to_double_nonneg [of "s1 + t2"] to_double_le [of "s1 + t2" 60] by (simp_all add: s2_def)
  have s3: "0 \<le> s3" "s3 \<le> 85"
    using s2 t3 to_double_nonneg [of "s2 + t3"] to_double_le [of "s2 + t3" 85] by (simp_all add: s3_def)
  have s4: "0 \<le> s4" "s4 \<le> 100"
    using s3 t4 to_double_nonneg [of "s3 + t4"] to_double_le [of "s3 + t4" 100] by (simp_all add: s4_def)
  have "foldl (\<lambda>sum f. sum + weighted_score f) (Num 0)
          (calculateFactorScores lat lng propertyType u1 u2 u3 u4)
        = foldl (+) (Num 0) (map weighted_score (calculateFactorScores lat lng propertyType u1 u2 u3 u4))"
    by (simp add: foldl_map)
  also have "\<dots> = Num s4"
    unfolding weighted_scores_computed [OF assms] Let_def profile_def [symmetric] t1(1) t2(1) t3(1) t4(1)
    by (simp add: s1_def s2_def s3_def s4_def)
  finally show ?thesis using s4 by blast
qed

lemma round_in_range:
  assumes "0 \<le> t" and "t \<le> 100"
  shows "Math_min (Num 100) (Math_max (Num 0) (Math_round (Num t))) = Math_round (Num t)"
    and "\<exists>n::int. 0 \<le> n \<and> n \<le> 100 \<and> Math_round (Num t) = Num (of_int n)"
proof -
  define z where "z = \<lfloor>t + 1 / 2\<rfloor>"
  have r: "Math_round (Num t) = Num (of_int z)" by (simp add: z_def)
  have lo: "0 \<le> z" using assms(1) by (simp add: z_def zero_le_floor)
  have "t + 1 / 2 < 101" using assms(2) by simp
  then have "z < 101" by (simp add: z_def floor_less_iff)
  then have hi: "z \<le> 100" by simp
  from lo have lo': "(0::rat) \<le> of_int z" by simp
  from hi have hi': "(of_int z :: rat) \<le> 100" by linarith
  show "Math_min (Num 100) (Math_max (Num 0) (Math_round (Num t))) = Math_round (Num t)"
    unfolding r using lo' hi' by (simp add: max_def min_def)
  show "\<exists>n::int. 0 \<le> n \<and> n \<le> 100 \<and> Math_round (Num t) = Num (of_int n)"
    unfolding r using lo hi by blast
qed

text \<open>
  The Mumbai assessment, evaluated step by step. The scores are 78, 74, 70 and 46; the
  products with the weights are rounded to one decimal and read back, and added up from the
  left.
\<close>

lemma mumbai_weighted:
  "map weighted_score (factors mumbai_report) = [lit 27.3, Num 18.5, Num 17.5, lit 6.9]"
proof -
  have d1: "to_double (1 / 2) = 1 / 2"
    using to_double_eval [of "- 1" "1 / 2"] by (simp add: double_eval)
  have d2: "to_double (1 / 16) = 1 / 16"
    using to_double_eval [of "- 4" "1 / 16"] by (simp add: double_eval)
  have d3: "to_double (3 / 4) = 3 / 4"
    using to_double_eval [of "- 1" "3 / 4"] by (simp add: double_eval)
  have d4: "to_double (183 / 4) = 183 / 4"
    using to_double_eval [of 5 "183 / 4"] by (simp add: double_eval)
  have d5: "to_double (7 / 20) = 3152519739159347 / 9007199254740992"
    using to_double_eval [of "- 2" "7 / 20"] by (simp add: double_eval)
  have d6: "to_double (122948269827214533 / 4503599627370496) = 1921066716050227 / 70368744177664"
    using to_double_eval [of 4 "122948269827214533 / 4503599627370496"] by (simp add: double_eval)
  have d7: "to_double (1 / 4) = 1 / 4"
    using to_double_eval [of "- 2" "1 / 4"] by (simp add: double_eval)
  have d8: "to_double (37 / 2) = 37 / 2"
    using to_double_eval [of 4 "37 / 2"] by (simp add: double_eval)
  have d9: "to_double (35 / 2) = 35 / 2"
    using to_double_eval [of 4 "35 / 2"] by (simp add: double_eval)
  have d10: "to_double (3 / 20) = 5404319552844595 / 36028797018963968"
    using to_double_eval [of "- 3" "3 / 20"] by (simp add: double_eval)
  have d11: "to_double (124299349715425685 / 18014398509481984) = 7768709357214105 / 1125899906842624"
    using to_double_eval [of 2 "124299349715425685 / 18014398509481984"] by (simp add: double_eval)
  show ?thesis
    by (simp add: mumbai_report_def mumbai_input_def runClimateAssessment_def
          weighted_scores_computed [OF lookup_modifier_residential] hazard_score_def noise_def
          lit_def clamp_Num getRegionProfile_def Let_def parseFloat_toFixed_Suc0 round1_eval
          to_double_0 d1 d2 d3 d4 d5 d6 d7 d8 d9 d10 d11 del: toFixed.simps)
qed

lemma mumbai_total:
  "foldl (\<lambda>sum f. sum + weighted_score f) (Num 0) (factors mumbai_report) = lit 70.2"
proof -
  have d12: "to_double (273 / 10) = 7684266864200909 / 281474976710656"
    using to_double_eval [of 4 "273 / 10"] by (simp add: double_eval)
  have d13: "to_double (69 / 10) = 3884354678607053 / 562949953421312"
    using to_double_eval [of 2 "69 / 10"] by (simp add: double_eval)
  have d14: "to_double (7684266864200909 / 281474976710656) = 7684266864200909 / 281474976710656"
    using to_double_eval [of 4 "7684266864200909 / 281474976710656"] by (simp add: double_eval)
  have d15: "to_double (12891553933348045 / 281474976710656) = 3222888483337011 / 70368744177664"
    using to_double_eval [of 5 "12891553933348045 / 281474976710656"] by (simp add: double_eval)
  have d16: "to_double (4454341506446131 / 70368744177664) = 4454341506446131 / 70368744177664"
    using to_double_eval [of 5 "4454341506446131 / 70368744177664"] by (simp add: double_eval)
  have d17: "to_double (39519086730176101 / 562949953421312) = 4939885841272013 / 70368744177664"
    using to_double_eval [of 6 "39519086730176101 / 562949953421312"] by (simp add: double_eval)
  have d18: "to_double (351 / 5) = 4939885841272013 / 70368744177664"
    using to_double_eval [of 6 "351 / 5"] by (simp add: double_eval)
  have "foldl (\<lambda>sum f. sum + weighted_score f) (Num 0) (factors mumbai_report)
          = foldl (+) (Num 0) (map weighted_score (factors mumbai_report))"
    by (simp add: foldl_map)
  then show ?thesis by (simp add: mumbai_weighted lit_def d18 d12 d13 d14 d15 d16 d17)
qed

lemma mumbai_score: "climate_risk_score mumbai_report = Num 70"
proof -
  have d: "to_double (351 / 5) = 4939885841272013 / 70368744177664"
    using to_double_eval [of 6 "351 / 5"] by (simp add: double_eval)
  have "climate_risk_score mumbai_report
          = Math_min (Num 100) (Math_max (Num 0)
             (Math_round (foldl (\<lambda>sum f. sum + weighted_score f) (Num 0) (factors mumbai_report))))"
    by (simp add: mumbai_report_def runClimateAssessment_def Let_def)
  then show ?thesis by (simp add: mumbai_total lit_def d floor_rat_numeral)
qed

text \<open>
  An assessment in which the double product decides the class: latitude 10, longitude 80
  (the Chennai box), mixed use, draws 0, 0.5, 0.5 and 0.5. The scores are 71, 73, 83 and
  70. The flood product 71 * 0.35 is 24.85 in exact arithmetic, which rounds to 24.9; the
  double product lies just below 24.85 and the weighted score is 24.8. The sum is 74.4
  instead of 74.5, the stored score 74 instead of 75, and the class High instead of Severe.
\<close>

lemma chennai_mixed_use:
  "map score (factors chennai_mixed_use_report) = [Num 71, Num 73, Num 83, Num 70]"
  "map weighted_score (factors chennai_mixed_use_report) = [lit 24.8, lit 18.3, lit 20.8, Num 10.5]"
  "climate_risk_score chennai_mixed_use_report = Num 74"
  "risk_classification chennai_mixed_use_report = High"
  "round1 (71 * 0.35) = 24.9"
proof -
  have m: "lookup_modifier ''mixed_use'' = Own \<lparr>flood = 5, heat = 8, sea = 5, water = 8\<rparr>"
    by (simp add: lookup_modifier_def get_property_def PROPERTY_MODIFIERS_def)
  have d1: "to_double (1 / 2) = 1 / 2"
    using to_double_eval [of "- 1" "1 / 2"] by (simp add: double_eval)
  have d2: "to_double (7 / 20) = 3152519739159347 / 9007199254740992"
    using to_double_eval [of "- 2" "7 / 20"] by (simp add: double_eval)
  have d3: "to_double (223828901480313637 / 9007199254740992) = 6994653171259801 / 281474976710656"
    using to_double_eval [of 4 "223828901480313637 / 9007199254740992"] by (simp add: double_eval)
  have d4: "to_double (1 / 4) = 1 / 4"
    using to_double_eval [of "- 2" "1 / 4"] by (simp add: double_eval)
  have d5: "to_double (73 / 4) = 73 / 4"
    using to_double_eval [of 4 "73 / 4"] by (simp add: double_eval)
  have d6: "to_double (83 / 4) = 83 / 4"
    using to_double_eval [of 4 "83 / 4"] by (simp add: double_eval)
  have d7: "to_double (3 / 20) = 5404319552844595 / 36028797018963968"
    using to_double_eval [of "- 3" "3 / 20"] by (simp add: double_eval)
  have d8: "to_double (189151184349560825 / 18014398509481984) = 21 / 2"
    using to_double_eval [of 3 "189151184349560825 / 18014398509481984"] by (simp add: double_eval)
  have d9: "to_double (124 / 5) = 6980579422424269 / 281474976710656"
    using to_double_eval [of 4 "124 / 5"] by (simp add: double_eval)
  have d10: "to_double (183 / 10) = 5150992073805005 / 281474976710656"
    using to_double_eval [of 4 "183 / 10"] by (simp add: double_eval)
  have d11: "to_double (104 / 5) = 5854679515581645 / 281474976710656"
    using to_double_eval [of 4 "104 / 5"] by (simp add: double_eval)
  have d12: "to_double (21 / 2) = 21 / 2"
    using to_double_eval [of 3 "21 / 2"] by (simp add: double_eval)
  have d13: "to_double (6980579422424269 / 281474976710656) = 6980579422424269 / 281474976710656"
    using to_double_eval [of 4 "6980579422424269 / 281474976710656"] by (simp add: double_eval)
  have d14: "to_double (6065785748114637 / 140737488355328) = 6065785748114637 / 140737488355328"
    using to_double_eval [of 5 "6065785748114637 / 140737488355328"] by (simp add: double_eval)
  have d15: "to_double (17986251011810919 / 281474976710656) = 2248281376476365 / 35184372088832"
    using to_double_eval [of 5 "17986251011810919 / 281474976710656"] by (simp add: double_eval)
  have d16: "to_double (2617717283409101 / 35184372088832) = 2617717283409101 / 35184372088832"
    using to_double_eval [of 6 "2617717283409101 / 35184372088832"] by (simp add: double_eval)
  note ds = d1 d2 d3 d4 d5 d6 d7 d8 d9 d10 d11 d12 d13 d14 d15 d16
  show "map score (factors chennai_mixed_use_report) = [Num 71, Num 73, Num 83, Num 70]"
    by (simp add: chennai_mixed_use_report_def runClimateAssessment_def scores_computed [OF m]
          hazard_score_def noise_def lit_def clamp_Num getRegionProfile_def Let_def
          floor_rat_numeral to_double_0 to_double_minus ds)
  show w: "map weighted_score (factors chennai_mixed_use_report)
             = [lit 24.8, lit 18.3, lit 20.8, Num 10.5]"
    by (simp add: chennai_mixed_use_report_def runClimateAssessment_def
          weighted_scores_computed [OF m] hazard_score_def noise_def lit_def clamp_Num
          getRegionProfile_def Let_def parseFloat_toFixed_Suc0 round1_eval to_double_0
          to_double_minus ds del: toFixed.simps)
  have "climate_risk_score chennai_mixed_use_report
          = Math_min (Num 100) (Math_max (Num 0)
             (Math_round (foldl (+) (Num 0) (map weighted_score (factors chennai_mixed_use_report)))))"
    by (simp add: chennai_mixed_use_report_def runClimateAssessment_def Let_def foldl_map)
  then show s: "climate_risk_score chennai_mixed_use_report = Num 74"
    unfolding w by (simp add: lit_def ds floor_rat_numeral)
  have "risk_classification chennai_mixed_use_report
          = classifyRisk (climate_risk_score chennai_mixed_use_report)"
    by (simp add: chennai_mixed_use_report_def runClimateAssessment_def Let_def)
  then show "risk_classification chennai_mixed_use_report = High"
    unfolding s by (simp add: classifyRisk_def)
  show "round1 (71 * 0.35) = 24.9"
    by (simp add: round1_eval)
qed

text \<open>
  An assessment in which the rounding of the double additions decides the score: Mumbai,
  agricultural, draws 0.6875, 0, 0.25 and 0.4375. The scores are 95, 73, 77 and 64, the
  weighted scores 33.3, 18.3, 19.3 and 9.6. In exact arithmetic they add up to 80.5, which
  \<^verbatim>\<open>Math.round\<close> takes to 81; added up in doubles from the left they give the double just
  below 80.5, and the stored score is 80.
\<close>

lemma mumbai_agricultural:
  "map score (factors mumbai_agricultural_report) = [Num 95, Num 73, Num 77, Num 64]"
  "map weighted_score (factors mumbai_agricultural_report) = [lit 33.3, lit 18.3, lit 19.3, lit 9.6]"
  "climate_risk_score mumbai_agricultural_report = Num 80"
  "Math_round (Num (33.3 + 18.3 + 19.3 + 9.6)) = Num 81"
proof -
  have m: "lookup_modifier ''agricultural'' = Own \<lparr>flood = 15, heat = 15, sea = 5, water = 20\<rparr>"
    by (simp add: lookup_modifier_def get_property_def PROPERTY_MODIFIERS_def)
  have d1: "to_double (1 / 2) = 1 / 2"
    using to_double_eval [of "- 1" "1 / 2"] by (simp add: double_eval)
  have d2: "to_double (3 / 16) = 3 / 16"
    using to_double_eval [of "- 3" "3 / 16"] by (simp add: double_eval)
  have d3: "to_double (9 / 4) = 9 / 4"
    using to_double_eval [of 1 "9 / 4"] by (simp add: double_eval)
  have d4: "to_double (381 / 4) = 381 / 4"
    using to_double_eval [of 6 "381 / 4"] by (simp add: double_eval)
  have d5: "to_double (1 / 4) = 1 / 4"
    using to_double_eval [of "- 2" "1 / 4"] by (simp add: double_eval)
  have d6: "to_double (1 / 16) = 1 / 16"
    using to_double_eval [of "- 4" "1 / 16"] by (simp add: double_eval)
  have d7: "to_double (3 / 4) = 3 / 4"
    using to_double_eval [of "- 1" "3 / 4"] by (simp add: double_eval)
  have d8: "to_double (257 / 4) = 257 / 4"
    using to_double_eval [of 6 "257 / 4"] by (simp add: double_eval)
  have d9: "to_double (7 / 20) = 3152519739159347 / 9007199254740992"
    using to_double_eval [of "- 2" "7 / 20"] by (simp add: double_eval)
  have d10: "to_double (299489375220137965 / 9007199254740992) = 133 / 4"
    using to_double_eval [of 5 "299489375220137965 / 9007199254740992"] by (simp add: double_eval)
  have d11: "to_double (73 / 4) = 73 / 4"
    using to_double_eval [of 4 "73 / 4"] by (simp add: double_eval)
  have d12: "to_double (77 / 4) = 77 / 4"
    using to_double_eval [of 4 "77 / 4"] by (simp add: double_eval)
  have d13: "to_double (3 / 20) = 5404319552844595 / 36028797018963968"
    using to_double_eval [of "- 3" "3 / 20"] by (simp add: double_eval)
  have d14: "to_double (5404319552844595 / 562949953421312) = 5404319552844595 / 562949953421312"
    using to_double_eval [of 3 "5404319552844595 / 562949953421312"] by (simp add: double_eval)
  have d15: "to_double (333 / 10) = 2343279181116211 / 70368744177664"
    using to_double_eval [of 5 "333 / 10"] by (simp add: double_eval)
  have d16: "to_double (183 / 10) = 5150992073805005 / 281474976710656"
    using to_double_eval [of 4 "183 / 10"] by (simp add: double_eval)
  have d17: "to_double (193 / 10) = 5432467050515661 / 281474976710656"
    using to_double_eval [of 4 "193 / 10"] by (simp add: double_eval)
  have d18: "to_double (48 / 5) = 5404319552844595 / 562949953421312"
    using to_double_eval [of 3 "48 / 5"] by (simp add: double_eval)
  have d19: "to_double (2343279181116211 / 70368744177664) = 2343279181116211 / 70368744177664"
    using to_double_eval [of 5 "2343279181116211 / 70368744177664"] by (simp add: double_eval)
  have d20: "to_double (14524108798269849 / 281474976710656) = 1815513599783731 / 35184372088832"
    using to_double_eval [of 5 "14524108798269849 / 281474976710656"] by (simp add: double_eval)
  have d21: "to_double (19956575848785509 / 281474976710656) = 4989143962196377 / 70368744177664"
    using to_double_eval [of 6 "19956575848785509 / 281474976710656"] by (simp add: double_eval)
  have d22: "to_double (45317471250415611 / 562949953421312) = 5664683906301951 / 70368744177664"
    using to_double_eval [of 6 "45317471250415611 / 562949953421312"] by (simp add: double_eval)
  note ds = d1 d2 d3 d4 d5 d6 d7 d8 d9 d10 d11 d12 d13 d14 d15 d16 d17 d18 d19 d20 d21 d22
  show "map score (factors mumbai_agricultural_report) = [Num 95, Num 73, Num 77, Num 64]"
    by (simp add: mumbai_agricultural_report_def runClimateAssessment_def scores_computed [OF m]
          hazard_score_def noise_def lit_def clamp_Num getRegionProfile_def Let_def
          floor_rat_numeral to_double_0 to_double_minus mumbai_input_def ds)
  show w: "map weighted_score (factors mumbai_agricultural_report)
             = [lit 33.3, lit 18.3, lit 19.3, lit 9.6]"
    by (simp add: mumbai_agricultural_report_def runClimateAssessment_def
          weighted_scores_computed [OF m] hazard_score_def noise_def lit_def clamp_Num
          getRegionProfile_def Let_def parseFloat_toFixed_Suc0 round1_eval to_double_0
          to_double_minus mumbai_input_def ds del: toFixed.simps)
  have "climate_risk_score mumbai_agricultural_report
          = Math_min (Num 100) (Math_max (Num 0)
             (Math_round (foldl (+) (Num 0) (map weighted_score (factors mumbai_agricultural_report)))))"
    by (simp add: mumbai_agricultural_report_def runClimateAssessment_def Let_def foldl_map)
  then show "climate_risk_score mumbai_agricultural_report = Num 80"
    unfolding w by (simp add: lit_def ds floor_rat_numeral)
  show "Math_round (Num (33.3 + 18.3 + 19.3 + 9.6)) = Num 81"
    by (simp add: floor_rat_numeral)
qed

text \<open>
  C2, as stated: the stored score is the sum of the weighted scores rounded to one decimal.
  For the Mumbai assessment the weighted scores are 27.3, 18.5, 17.5 and 6.9; their sum is
  70.2, which rounding to one decimal leaves as it is, and the stored score is 70.
\<close>

theorem composite_score_round1_counterexample:
  "climate_risk_score mumbai_report
     \<noteq> parseFloat (toFixed 1 (foldl (\<lambda>sum f. sum + weighted_score f) (Num 0) (factors mumbai_report)))"
proof -
  have d: "to_double (351 / 5) = 4939885841272013 / 70368744177664"
    using to_double_eval [of 6 "351 / 5"] by (simp add: double_eval)
  have "parseFloat (toFixed 1 (foldl (\<lambda>sum f. sum + weighted_score f) (Num 0) (factors mumbai_report)))
          = lit 70.2"
    by (simp add: mumbai_total lit_def d parseFloat_toFixed_Suc0 round1_eval del: toFixed.simps)
  then show ?thesis by (simp add: mumbai_score lit_def d)
qed

text \<open>
  C2, amended. For every assessment the stored score is the sum of the four weighted scores
  of the scorer's output, added up from the left in doubles as \<^verbatim>\<open>reduce\<close> does, rounded to
  the nearest whole number (\<^verbatim>\<open>Math.round\<close>, a tie going up) and clamped to \<open>[0, 100]\<close>; the
  sum lies in that range, so the clamp changes nothing and the score is a whole number from
  0 to 100. This value, and no other derivation, is what the classifier and the lending
  rules receive.
\<close>

theorem composite_score_is_rounded_sum:
  assumes "r = runClimateAssessment input u0 u1 u2 u3 u4 u5 now y"
  shows "factors r = calculateFactorScores (latitude input) (longitude input)
                       (tag (property_type input)) u1 u2 u3 u4 \<and>
     climate_risk_score r
       = Math_min (Num 100) (Math_max (Num 0)
           (Math_round (foldl (\<lambda>sum f. sum + weighted_score f) (Num 0) (factors r)))) \<and>
     climate_risk_score r
       = Math_round (foldl (\<lambda>sum f. sum + weighted_score f) (Num 0) (factors r)) \<and>
     (\<exists>n::int. 0 \<le> n \<and> n \<le> 100 \<and> climate_risk_score r = Num (of_int n)) \<and>
     risk_classification r = classifyRisk (climate_risk_score r) \<and>
     lending_adjustments r
       = generateLendingAdjustments (climate_risk_score r) (risk_classification r)
           (tag (property_type input)) (factors r)"
proof -
  define fs where "fs = calculateFactorScores (latitude input) (longitude input)
                       (tag (property_type input)) u1 u2 u3 u4"
  define total where "total = foldl (\<lambda>sum f. sum + weighted_score f) (Num 0) fs"
  have f: "factors r = fs"
    by (simp add: assms runClimateAssessment_def Let_def fs_def)
  have s: "climate_risk_score r = Math_min (Num 100) (Math_max (Num 0) (Math_round total))"
    by (simp add: assms runClimateAssessment_def Let_def fs_def total_def)
  have c: "risk_classification r = classifyRisk (climate_risk_score r)"
    by (simp add: assms runClimateAssessment_def Let_def)
  have l: "lending_adjustments r
       = generateLendingAdjustments (climate_risk_score r) (risk_classification r)
           (tag (property_type input)) (factors r)"
    by (simp add: assms runClimateAssessment_def Let_def)
  from tag_lookup obtain m where "lookup_modifier (tag (property_type input)) = Own m" by blast
  from rawScore_range [OF this] obtain t where t: "total = Num t" "0 \<le> t" "t \<le> 100"
    unfolding total_def fs_def by blast
  note rr = round_in_range [OF t(2,3)]
  have s': "climate_risk_score r = Math_round total"
    unfolding s t(1) by (rule rr(1))
  have n: "\<exists>n::int. 0 \<le> n \<and> n \<le> 100 \<and> climate_risk_score r = Num (of_int n)"
    unfolding s' t(1) by (rule rr(2))
  have "factors r = calculateFactorScores (latitude input) (longitude input)
                       (tag (property_type input)) u1 u2 u3 u4"
    by (simp add: f fs_def)
  moreover have "climate_risk_score r
       = Math_min (Num 100) (Math_max (Num 0)
           (Math_round (foldl (\<lambda>sum f. sum + weighted_score f) (Num 0) (factors r))))"
    by (simp only: s total_def f)
  moreover have "climate_risk_score r
       = Math_round (foldl (\<lambda>sum f. sum + weighted_score f) (Num 0) (factors r))"
    by (simp only: s' total_def f)
  ultimately show ?thesis
    using n c l by (intro conjI)
qed

theorem composite_score_is_rounded_sum_witness:
  "foldl (\<lambda>sum f. sum + weighted_score f) (Num 0) (factors mumbai_report) = lit 70.2 \<and>
   climate_risk_score mumbai_report = Num 70 \<and>
   risk_classification mumbai_report = High"
proof -
  have d: "to_double (351 / 5) = 4939885841272013 / 70368744177664"
    using to_double_eval [of 6 "351 / 5"] by (simp add: double_eval)
  note th = composite_score_is_rounded_sum [OF mumbai_report_def]
  note s = th [THEN conjunct2, THEN conjunct2, THEN conjunct1]
  note c = th [THEN conjunct2, THEN conjunct2, THEN conjunct2, THEN conjunct2, THEN conjunct1]
  have s70: "climate_risk_score mumbai_report = Num 70"
    unfolding s mumbai_total by (simp add: lit_def d floor_rat_numeral)
  have "risk_classification mumbai_report = High"
    unfolding c s70 by (simp add: classifyRisk_def)
  with s70 mumbai_total show ?thesis by simp
qed

end
